theory Spec2Isabelle
  imports Main "HOL-Library.Sublist"
begin

section \<open>Go library functions the package calls\<close>

text \<open>
  The package \<open>isyns\<close> is written against Go's standard library. The handful of library
  functions that decide its behaviour are given here as executable functions, each after
  its documented behaviour. Go strings are byte strings: \<open>string\<close>.
\<close>

subsection \<open>strings\<close>

text \<open>\<open>strings.HasPrefix(s, prefix)\<close>: whether \<open>s\<close> begins with \<open>prefix\<close>.\<close>

definition HasPrefix :: "string \<Rightarrow> string \<Rightarrow> bool" where
  "HasPrefix s pre = (take (length pre) s = pre)"

text \<open>
  \<open>strings.Index(s, substr)\<close>: the index of the first instance of \<open>substr\<close> in \<open>s\<close>,
  or \<open>-1\<close> if \<open>substr\<close> is not present in \<open>s\<close>.
\<close>

fun Index :: "string \<Rightarrow> string \<Rightarrow> int" where
  "Index [] substr = (if substr = [] then 0 else - 1)"
| "Index (c # s) substr =
     (if HasPrefix (c # s) substr then 0
      else (let i = Index s substr in if i = - 1 then - 1 else i + 1))"

text \<open>The slice expressions \<open>s[lo:hi]\<close> and \<open>s[lo:]\<close>, used only with indices in range.\<close>

definition slice :: "string \<Rightarrow> nat \<Rightarrow> nat \<Rightarrow> string" where
  "slice s lo hi = take (hi - lo) (drop lo s)"

definition slice_from :: "string \<Rightarrow> nat \<Rightarrow> string" where
  "slice_from s lo = drop lo s"

subsection \<open>strconv\<close>

text \<open>
  \<open>strconv.Atoi(s)\<close> is \<open>ParseInt(s, 10, 0)\<close> converted to \<open>int\<close>: an optional sign
  \<open>+\<close> or \<open>-\<close>, then one or more decimal digits and nothing else (base 10 admits no
  underscores). A value outside the range of \<open>int\<close> is reported as an error too. The
  caller only tests the error, so the result is \<open>None\<close> on any error. \<open>int\<close> is taken to
  be 64 bits wide.
\<close>

definition isDigit :: "char \<Rightarrow> bool" where
  "isDigit c = (48 \<le> (of_char c :: nat) \<and> (of_char c :: nat) \<le> 57)"

fun digits_val :: "string \<Rightarrow> nat \<Rightarrow> nat option" where
  "digits_val [] n = Some n"
| "digits_val (c # cs) n =
     (if isDigit c then digits_val cs (n * 10 + (of_char c - 48)) else None)"

definition intSize :: nat where
  "intSize = 64"

definition in_int_range :: "int \<Rightarrow> bool" where
  "in_int_range v = (- (2 ^ (intSize - 1)) \<le> v \<and> v \<le> 2 ^ (intSize - 1) - 1)"

definition Atoi :: "string \<Rightarrow> int option" where
  "Atoi s =
     (case s of
        [] \<Rightarrow> None
      | c # cs \<Rightarrow>
          (let ds = (if c = CHR ''-'' \<or> c = CHR ''+'' then cs else s) in
           if ds = [] then None
           else (case digits_val ds 0 of
                   None \<Rightarrow> None
                 | Some n \<Rightarrow>
                     (let v = (if c = CHR ''-'' then - int n else int n) in
                      if in_int_range v then Some v else None))))"

subsection \<open>net/url: query values\<close>

text \<open>
  \<open>url.Values\<close> is \<open>map[string][]string\<close>. A \<open>range\<close> loop visits the entries of a Go map
  in an unspecified order, so a value of this type is kept as the list of its entries in
  the order the loop visits them; the keys of a map are distinct (\<open>wf_Values\<close>). A
  statement about the map is a statement for every such list.
\<close>

type_synonym Values = "(string \<times> string list) list"

definition wf_Values :: "Values \<Rightarrow> bool" where
  "wf_Values q = distinct (map fst q)"

text \<open>\<open>Values.Get(key)\<close>: the first value associated with the key, or the empty string.\<close>

definition Values_Get :: "Values \<Rightarrow> string \<Rightarrow> string" where
  "Values_Get q key =
     (case map_of q key of
        None \<Rightarrow> []
      | Some vs \<Rightarrow> (case vs of [] \<Rightarrow> [] | v # _ \<Rightarrow> v))"

text \<open>
  \<open>URL.Query()\<close> parses \<open>RawQuery\<close> with \<open>url.ParseQuery\<close> and drops the error. The query
  is split at \<open>&\<close>; a piece holding a semicolon, an empty piece and a piece with a
  malformed percent escape are skipped; a piece is cut at its first \<open>=\<close> into key and
  value, both unescaped (\<open>+\<close> is a space, \<open>%XX\<close> a byte); the value is appended to the
  values of the key.
\<close>

fun Cut :: "string \<Rightarrow> char \<Rightarrow> string \<times> string" where
  "Cut [] sep = ([], [])"
| "Cut (c # s) sep = (if c = sep then ([], s) else (let (b, a) = Cut s sep in (c # b, a)))"

definition unhex :: "char \<Rightarrow> nat option" where
  "unhex c =
     (let n = (of_char c :: nat) in
      if 48 \<le> n \<and> n \<le> 57 then Some (n - 48)
      else if 97 \<le> n \<and> n \<le> 102 then Some (n - 97 + 10)
      else if 65 \<le> n \<and> n \<le> 70 then Some (n - 65 + 10)
      else None)"

fun QueryUnescape :: "string \<Rightarrow> string option" where
  "QueryUnescape [] = Some []"
| "QueryUnescape (c # s) =
     (if c = CHR ''%'' then
        (case s of
           h # l # rest \<Rightarrow>
             (case (unhex h, unhex l) of
                (Some a, Some b) \<Rightarrow> map_option ((#) (char_of (a * 16 + b))) (QueryUnescape rest)
              | _ \<Rightarrow> None)
         | _ \<Rightarrow> None)
      else map_option ((#) (if c = CHR ''+'' then CHR '' '' else c)) (QueryUnescape s))"

definition Values_append :: "Values \<Rightarrow> string \<Rightarrow> string \<Rightarrow> Values" where
  "Values_append m key v =
     (case map_of m key of
        None \<Rightarrow> m @ [(key, [v])]
      | Some vs \<Rightarrow> map (\<lambda>(k, ws). if k = key then (k, ws @ [v]) else (k, ws)) m)"

fun split_on :: "char \<Rightarrow> string \<Rightarrow> string list" where
  "split_on sep [] = [[]]"
| "split_on sep (c # s) =
     (if c = sep then [] # split_on sep s
      else (case split_on sep s of w # ws \<Rightarrow> (c # w) # ws | [] \<Rightarrow> [[c]]))"

fun parseQuery :: "Values \<Rightarrow> string list \<Rightarrow> Values" where
  "parseQuery m [] = m"
| "parseQuery m (piece # pieces) =
     (if CHR '';'' \<in> set piece then parseQuery m pieces
      else if piece = [] then parseQuery m pieces
      else (let (key, v) = Cut piece CHR ''='' in
            case QueryUnescape key of
              None \<Rightarrow> parseQuery m pieces
            | Some key1 \<Rightarrow>
                (case QueryUnescape v of
                   None \<Rightarrow> parseQuery m pieces
                 | Some v1 \<Rightarrow> parseQuery (Values_append m key1 v1) pieces)))"

definition ParseQuery :: "string \<Rightarrow> Values" where
  "ParseQuery query = parseQuery [] (split_on CHR ''&'' query)"

subsection \<open>strconv.Itoa and the verb \<open>%03d\<close>\<close>

fun decimal :: "nat \<Rightarrow> string" where
  "decimal n =
     (if n < 10 then [''0123456789'' ! n]
      else decimal (n div 10) @ [''0123456789'' ! (n mod 10)])"

definition Itoa :: "int \<Rightarrow> string" where
  "Itoa i = (if i < 0 then CHR ''-'' # decimal (nat (- i)) else decimal (nat i))"

text \<open>
  \<open>fmt.Sprintf("%03d", i)\<close>: the decimal digits padded with zeros to the width 3, the
  sign of a negative number counting as one of the three columns.
\<close>

definition Sprintf_03d :: "int \<Rightarrow> string" where
  "Sprintf_03d i =
     (if i < 0 then
        CHR ''-'' # replicate (2 - length (decimal (nat (- i)))) CHR ''0'' @ decimal (nat (- i))
      else replicate (3 - length (decimal (nat i))) CHR ''0'' @ decimal (nat i))"

subsection \<open>path.Join and url.PathEscape\<close>

text \<open>
  \<open>path.Clean\<close>: multiple slashes become one, \<open>.\<close> elements go, an inner \<open>..\<close> goes
  with the element before it, a \<open>..\<close> that begins a rooted path goes, and the empty
  result is \<open>.\<close>. \<open>clean_elems\<close> runs over the elements between the slashes, \<open>out\<close>
  being the elements kept so far.
\<close>

fun clean_elems :: "bool \<Rightarrow> string list \<Rightarrow> string list \<Rightarrow> string list" where
  "clean_elems rooted [] out = out"
| "clean_elems rooted (e # es) out =
     (if e = [] \<or> e = ''.'' then clean_elems rooted es out
      else if e = ''..'' then
        (if out \<noteq> [] \<and> last out \<noteq> ''..'' then clean_elems rooted es (butlast out)
         else if rooted then clean_elems rooted es out
         else clean_elems rooted es (out @ [''..'']))
      else clean_elems rooted es (out @ [e]))"

fun join_with :: "string \<Rightarrow> string list \<Rightarrow> string" where
  "join_with sep [] = []"
| "join_with sep [e] = e"
| "join_with sep (e # es) = e @ sep @ join_with sep es"

definition Clean :: "string \<Rightarrow> string" where
  "Clean p =
     (if p = [] then ''.''
      else (let rooted = (hd p = CHR ''/'');
                out = clean_elems rooted (split_on CHR ''/'' p) [];
                res = (if rooted then ''/'' else []) @ join_with ''/'' out
            in if res = [] then ''.'' else res))"

text \<open>
  \<open>path.Join\<close>: the elements from the first non-empty one on, joined with slashes, and
  the result cleaned; the empty string when every element is empty.
\<close>

definition path_Join :: "string list \<Rightarrow> string" where
  "path_Join elems =
     (let es = dropWhile (\<lambda>e. e = []) elems in
      if es = [] then [] else Clean (join_with ''/'' es))"

text \<open>
  \<open>url.PathEscape\<close>: every byte is written as \<open>%XX\<close> in upper-case hexadecimal, except
  letters, digits, the marks \<open>- _ . ~\<close> and the reserved characters \<open>$ & + : = @\<close>.
\<close>

definition shouldEscape :: "char \<Rightarrow> bool" where
  "shouldEscape c =
     (let n = (of_char c :: nat) in
      if (97 \<le> n \<and> n \<le> 122) \<or> (65 \<le> n \<and> n \<le> 90) \<or> (48 \<le> n \<and> n \<le> 57) then False
      else if c \<in> set ''-_.~'' then False
      else if c \<in> set ''$&+,/:;=?@'' then c \<in> set ''/;,?''
      else True)"

definition upperhex :: "nat \<Rightarrow> char" where
  "upperhex n = ''0123456789ABCDEF'' ! (n mod 16)"

definition PathEscape :: "string \<Rightarrow> string" where
  "PathEscape s =
     concat (map (\<lambda>c. if shouldEscape c
                       then [CHR ''%'', upperhex (of_char c div 16), upperhex (of_char c mod 16)]
                       else [c]) s)"

section \<open>The data model\<close>

subsection \<open>Declarations of package \<open>isy\<close> and \<open>CommandParam\<close>\<close>

text \<open>
  The type \<open>isy.UOM\<close> and the constant \<open>isy.UOMUnknown\<close> are declared in a file of package
  \<open>isy\<close> that is not among the sources. They are parameters of the model: \<open>'u\<close> is the type
  \<open>isy.UOM\<close>, and a value of \<open>'u isy_pkg\<close> gives the constant, the conversion \<open>isy.UOM(unit)\<close>
  from \<open>int\<close> and the zero value of the type (the value of a \<open>UOM\<close> field that a struct
  literal leaves out). \<open>CommandParam\<close> is the struct the code builds with its two fields.
\<close>

record 'u isy_pkg =
  UOMUnknown :: 'u
  UOM_conv :: "int \<Rightarrow> 'u"
  UOM_zero :: 'u

record 'u CommandParam =
  Value :: string
  UOM :: 'u

text \<open>
  For evaluating the functions at concrete inputs: the declarations with \<open>isy.UOM\<close> an
  integer type and 0 its unknown sentinel.
\<close>

definition isy_int :: "int isy_pkg" where
  "isy_int = \<lparr>UOMUnknown = 0, UOM_conv = (\<lambda>unit. unit), UOM_zero = 0\<rparr>"

subsection \<open>URLs, the client and the server\<close>

text \<open>
  A \<open>*url.URL\<close> is kept as the expression that builds it: the string it was parsed from,
  a reference resolved against a base, or a URL whose \<open>RawQuery\<close> was replaced by the
  encoding of the given values.
\<close>

datatype URL =
  url_Parse string
| ResolveReference URL URL
| SetRawQuery URL "(string \<times> string) list"

text \<open>
  The configuration structs, as far as \<open>NewServer\<close> reads them into the server
  (\<open>TLSConfig\<close> and \<open>ErrorLog\<close> only reach the library's server object).
\<close>

record ClientConfig =
  BaseURL :: string
  Username :: string
  Password :: string

record Config =
  ListenAddr :: string
  Username :: string
  Password :: string

record nsClient =
  BaseURL :: URL
  AddrPrefix :: string
  Username :: string
  Password :: string

text \<open>A channel value is known by the capacity it was made with.\<close>

datatype chan = make_chan nat

text \<open>
  \<open>Server\<close>: the field \<open>Requests\<close> is the receive-only view of \<open>rawReqs\<close>, and \<open>httpServer\<close>
  is the library's server object; neither is a field of the record. \<open>passwordSHA256\<close> is a
  byte string.
\<close>

record Server =
  rawReqs :: chan
  client :: nsClient
  username :: string
  passwordSHA256 :: string
  addrPrefix :: string

subsection \<open>Requests\<close>

record request =
  id' :: string
  server :: Server

text \<open>
  A \<open>map[string]CommandParam\<close> value: \<open>None\<close> is the nil map a \<open>var\<close> declaration leaves,
  \<open>Some m\<close> a map made by \<open>make\<close>.
\<close>

type_synonym 'u Params = "(string \<rightharpoonup> 'u CommandParam) option"

text \<open>The implementations of the interface \<open>Request\<close>, one constructor per struct.\<close>

datatype 'u Request =
  InstallRequest (req: request)
| NodeQueryRequest (req: request) (NodeAddr: string)
| NodeStatusValuesRequest (req: request) (NodeAddr: string)
| AddAllNodesRequest (req: request)
| AddNodeRequest (req: request) (NodeAddr: string) (NodeDefID: string)
    (PrimaryAddr: string) (Name: string)
| RemoveNodeRequest (req: request) (NodeAddr: string)
| RenameNodeRequest (req: request) (NodeAddr: string) (Name: string)
| EnableNodeRequest (req: request) (NodeAddr: string) (Enabled: bool)
| CommandRequest (req: request) (NodeAddr: string) (Command: string)
    (Param: "'u CommandParam option") (Params: "'u Params")

definition ID :: "'u Request \<Rightarrow> string" where
  "ID r = id' (req r)"

text \<open>
  An inbound \<open>*http.Request\<close>, as far as the handler reads it: the result of
  \<open>r.BasicAuth()\<close> (\<open>None\<close> when the header is missing or malformed), \<open>r.URL.Path\<close> and the
  values \<open>r.URL.Query()\<close> returns.
\<close>

record http_Request =
  BasicAuth :: "(string \<times> string) option"
  URL_Path :: string
  URL_Query :: Values

text \<open>
  A server and an inbound call for evaluating the functions at concrete inputs: the
  server of profile 1, and a call with the query string of the specification's example.
\<close>

definition example_server :: Server where
  "example_server =
     \<lparr>rawReqs = make_chan 0,
      client = \<lparr>BaseURL = ResolveReference (url_Parse ''http://isy.example/'')
                            (url_Parse ''rest/ns/1/''),
                 AddrPrefix = ''n001_'', Username = ''admin'', Password = ''admin''\<rparr>,
      username = ''isy'', passwordSHA256 = ''terces'', addrPrefix = ''n001_''\<rparr>"

definition example_call :: "string \<Rightarrow> http_Request" where
  "example_call path =
     \<lparr>BasicAuth = Some (''isy'', ''secret''), URL_Path = path,
      URL_Query = ParseQuery ''level.uom2=50&mode=auto&requestId=r1''\<rparr>"

section \<open>Decoding the query string\<close>

definition makeCommonReq :: "Server \<Rightarrow> http_Request \<Rightarrow> request" where
  "makeCommonReq s r =
     (let rid = Values_Get (URL_Query r) ''requestId'' in
      \<lparr>id' = rid, server = s\<rparr>)"

text \<open>
  The body of the loop of \<open>makeCommandParams\<close> that computes \<open>name\<close> and \<open>uom\<close> from the
  key \<open>k\<close>.
\<close>

definition name_uom :: "'u isy_pkg \<Rightarrow> string \<Rightarrow> string \<times> 'u" where
  "name_uom isy k =
     (let splitPos = Index k ''.uom'' in
      if splitPos \<noteq> - 1 then
        (let namePrefix = slice k 0 (nat splitPos);
             uomStr = slice_from k (nat splitPos + 4)
         in case Atoi uomStr of
              None \<Rightarrow> (k, UOMUnknown isy)
            | Some unit \<Rightarrow> (namePrefix, UOM_conv isy unit))
      else (k, UOMUnknown isy))"

text \<open>The loop over the entries of the query map, \<open>ret\<close> being the map built so far.\<close>

fun makeCommandParams_loop :: "'u isy_pkg \<Rightarrow> Values \<Rightarrow> 'u Params \<Rightarrow> 'u Params" where
  "makeCommandParams_loop isy [] ret = ret"
| "makeCommandParams_loop isy ((k, vs) # rest) ret =
     (if k = ''requestId'' then makeCommandParams_loop isy rest ret
      else if length vs = 0 then makeCommandParams_loop isy rest ret
      else (let (name, uom) = name_uom isy k;
                ret1 = (case ret of None \<Rightarrow> Map.empty | Some m \<Rightarrow> m)
            in makeCommandParams_loop isy rest
                 (Some (ret1(name \<mapsto> \<lparr>Value = vs ! 0, UOM = uom\<rparr>)))))"

text \<open>
  Reading a \<open>map[string]CommandParam\<close> value at a key (\<open>v, ok := m[name]\<close>): a nil map
  reads as an empty one.
\<close>

definition Params_lookup :: "'u Params \<Rightarrow> string \<Rightarrow> 'u CommandParam option" where
  "Params_lookup ret name = (case ret of None \<Rightarrow> None | Some m \<Rightarrow> m name)"

definition makeCommandParams :: "'u isy_pkg \<Rightarrow> http_Request \<Rightarrow> 'u Params" where
  "makeCommandParams isy r = makeCommandParams_loop isy (URL_Query r) None"

section \<open>Address namespacing\<close>

definition formatAddr :: "Server \<Rightarrow> string \<Rightarrow> string" where
  "formatAddr s base = addrPrefix s @ base"

definition parseAddr :: "Server \<Rightarrow> string \<Rightarrow> string" where
  "parseAddr s given =
     (if \<not> HasPrefix given (addrPrefix s) then given
      else slice_from given (length (addrPrefix s)))"

definition FormatAddr :: "nsClient \<Rightarrow> string \<Rightarrow> string" where
  "FormatAddr c base = AddrPrefix c @ base"

definition ParseAddr :: "nsClient \<Rightarrow> string \<Rightarrow> string" where
  "ParseAddr c given =
     (if \<not> HasPrefix given (AddrPrefix c) then given
      else slice_from given (length (AddrPrefix c)))"

section \<open>Routing\<close>

text \<open>
  \<open>router.Path(tpl)\<close> of \<open>gorilla/mux\<close> compiles the template into a regular expression
  anchored at both ends in which a variable \<open>{name}\<close> stands for \<open>[^/]+\<close> and the rest is
  literal. In the templates of this router every variable is a whole path segment, so a
  path matches when it has the template's segments, a literal segment being equal and a
  variable segment being non-empty; the match binds each variable to its segment.
  \<open>router.Match\<close> tries the routes in the order of their registration.
\<close>

datatype seg = Lit string | Var string

definition tpl_seg :: "string \<Rightarrow> seg" where
  "tpl_seg w =
     (if 2 \<le> length w \<and> hd w = CHR ''{'' \<and> last w = CHR ''}'' then Var (butlast (tl w))
      else Lit w)"

fun match_segs :: "seg list \<Rightarrow> string list \<Rightarrow> (string \<times> string) list option" where
  "match_segs [] [] = Some []"
| "match_segs (Lit l # ts) (p # ps) = (if p = l then match_segs ts ps else None)"
| "match_segs (Var x # ts) (p # ps) =
     (if p = [] then None else map_option ((#) (x, p)) (match_segs ts ps))"
| "match_segs _ _ = None"

definition route_Match :: "string \<Rightarrow> string \<Rightarrow> (string \<times> string) list option" where
  "route_Match tpl path =
     match_segs (map tpl_seg (split_on CHR ''/'' tpl)) (split_on CHR ''/'' path)"

text \<open>The routes of \<open>init\<close>, each a template and its name, in the order of registration.\<close>

definition router :: "(string \<times> string) list" where
  "router =
     [(''/ns/install/{profileNum}'', ''install''),
      (''/ns/nodes/{nodeAddr}/query'', ''nodeQuery''),
      (''/ns/nodes/{nodeAddr}/status'', ''nodeStatus''),
      (''/ns/add/nodes'', ''addAllNodes''),
      (''/ns/nodes/{nodeAddr}/report/add/{nodeDefId}'', ''addNode''),
      (''/ns/nodes/{nodeAddr}/report/remove'', ''removeNode''),
      (''/ns/nodes/{nodeAddr}/report/rename'', ''renameNode''),
      (''/ns/nodes/{nodeAddr}/report/enable'', ''enableNode''),
      (''/ns/nodes/{nodeAddr}/report/disable'', ''disableNode''),
      (''/ns/nodes/{nodeAddr}/cmd/{command}'', ''nodeCommand''),
      (''/ns/nodes/{nodeAddr}/cmd/{command}/{value}'', ''nodeCommandValue''),
      (''/ns/nodes/{nodeAddr}/cmd/{command}/{value}/{unit}'', ''nodeCommandValueUnit'')]"

fun router_Match ::
  "(string \<times> string) list \<Rightarrow> string \<Rightarrow> (string \<times> (string \<times> string) list) option" where
  "router_Match [] path = None"
| "router_Match ((tpl, nm) # routes) path =
     (case route_Match tpl path of
        Some vars \<Rightarrow> Some (nm, vars)
      | None \<Rightarrow> router_Match routes path)"

text \<open>\<open>match.Vars[key]\<close>: reading a Go map at a missing key gives the empty string.\<close>

definition Vars_get :: "(string \<times> string) list \<Rightarrow> string \<Rightarrow> string" where
  "Vars_get vars key = (case map_of vars key of None \<Rightarrow> [] | Some v \<Rightarrow> v)"

section \<open>The handler\<close>

text \<open>
  What the handler does, in the order it does it: \<open>http.Error(w, msg, code)\<close>,
  \<open>w.WriteHeader(code)\<close> and the send \<open>ch <- req\<close>.
\<close>

datatype 'u effect =
  http_Error string nat
| WriteHeader nat
| chan_send chan "'u Request"

text \<open>
  \<open>subtle.ConstantTimeCompare(x, y)\<close>: 1 if the two slices have equal contents, 0
  otherwise, and 0 at once when their lengths differ.
\<close>

definition ConstantTimeCompare :: "string \<Rightarrow> string \<Rightarrow> int" where
  "ConstantTimeCompare x y = (if length x \<noteq> length y then 0 else if x = y then 1 else 0)"

text \<open>
  The \<open>switch\<close> on the name of the matched route. \<open>None\<close> is the nil \<open>req\<close> that the
  \<open>break\<close> of the case \<open>nodeCommandValueUnit\<close> leaves (and that a name outside the cases
  would leave).
\<close>

definition handler_switch ::
  "'u isy_pkg \<Rightarrow> Server \<Rightarrow> http_Request \<Rightarrow> string \<Rightarrow> (string \<times> string) list
     \<Rightarrow> 'u Request option" where
  "handler_switch isy s r nm vars =
     (if nm = ''install'' then Some (InstallRequest (makeCommonReq s r))
      else if nm = ''nodeQuery'' then
        Some (NodeQueryRequest (makeCommonReq s r) (parseAddr s (Vars_get vars ''nodeAddr'')))
      else if nm = ''nodeStatus'' then
        Some (NodeStatusValuesRequest (makeCommonReq s r)
                (parseAddr s (Vars_get vars ''nodeAddr'')))
      else if nm = ''addAllNodes'' then Some (AddAllNodesRequest (makeCommonReq s r))
      else if nm = ''addNode'' then
        Some (AddNodeRequest (makeCommonReq s r) (parseAddr s (Vars_get vars ''nodeAddr''))
                (Vars_get vars ''nodeDefId'')
                (parseAddr s (Values_Get (URL_Query r) ''primary''))
                (Values_Get (URL_Query r) ''name''))
      else if nm = ''removeNode'' then
        Some (RemoveNodeRequest (makeCommonReq s r) (parseAddr s (Vars_get vars ''nodeAddr'')))
      else if nm = ''renameNode'' then
        Some (RenameNodeRequest (makeCommonReq s r) (parseAddr s (Vars_get vars ''nodeAddr''))
                (Values_Get (URL_Query r) ''name''))
      else if nm = ''enableNode'' then
        Some (EnableNodeRequest (makeCommonReq s r) (parseAddr s (Vars_get vars ''nodeAddr''))
                True)
      else if nm = ''disableNode'' then
        Some (EnableNodeRequest (makeCommonReq s r) (parseAddr s (Vars_get vars ''nodeAddr''))
                False)
      else if nm = ''nodeCommand'' then
        Some (CommandRequest (makeCommonReq s r) (parseAddr s (Vars_get vars ''nodeAddr''))
                (Vars_get vars ''command'') None (makeCommandParams isy r))
      else if nm = ''nodeCommandValue'' then
        Some (CommandRequest (makeCommonReq s r) (parseAddr s (Vars_get vars ''nodeAddr''))
                (Vars_get vars ''command'')
                (Some \<lparr>Value = Vars_get vars ''value'', UOM = UOM_zero isy\<rparr>)
                (makeCommandParams isy r))
      else if nm = ''nodeCommandValueUnit'' then
        (case Atoi (Vars_get vars ''unit'') of
           None \<Rightarrow> None
         | Some unit \<Rightarrow>
             Some (CommandRequest (makeCommonReq s r)
                     (parseAddr s (Vars_get vars ''nodeAddr''))
                     (Vars_get vars ''command'')
                     (Some \<lparr>Value = Vars_get vars ''value'', UOM = UOM_conv isy unit\<rparr>)
                     (makeCommandParams isy r)))
      else None)"

text \<open>
  \<open>Server.handler\<close>. \<open>sha256sum\<close> is \<open>sha256.Sum256\<close>, a parameter: the digest of a byte
  string, as a byte string.
\<close>

definition handler ::
  "(string \<Rightarrow> string) \<Rightarrow> 'u isy_pkg \<Rightarrow> Server \<Rightarrow> http_Request \<Rightarrow> 'u effect list" where
  "handler sha256sum isy s r =
     (case BasicAuth r of
        None \<Rightarrow> [http_Error ''Unauthorized'' 401]
      | Some (username1, password) \<Rightarrow>
          if username1 \<noteq> username s then [http_Error ''Unauthorized'' 401]
          else if ConstantTimeCompare (sha256sum password) (passwordSHA256 s) \<noteq> 1
            then [http_Error ''Unauthorized'' 401]
          else
            (case router_Match router (URL_Path r) of
               None \<Rightarrow> [http_Error ''Not Found'' 404]
             | Some (nm, vars) \<Rightarrow>
                 (case handler_switch isy s r nm vars of
                    None \<Rightarrow> [http_Error ''Not Found'' 404]
                  | Some rq \<Rightarrow> [WriteHeader 204, chan_send (rawReqs s) rq])))"

section \<open>Constructing the server\<close>

text \<open>
  \<open>NewServer\<close>. \<open>parses\<close> says whether \<open>url.Parse\<close> accepts a string, a parameter like
  \<open>sha256sum\<close>. The path \<open>rest/ns/<n>/\<close> the function generates always parses, so its
  \<open>panic\<close> is not a branch. The result is the error or the server.
\<close>

definition NewServer ::
  "(string \<Rightarrow> string) \<Rightarrow> (string \<Rightarrow> bool) \<Rightarrow> Config \<Rightarrow> int \<Rightarrow> ClientConfig
     \<Rightarrow> string + Server" where
  "NewServer sha256sum parses config profileNum isyConfig =
     (let relPath = path_Join [''rest'', ''ns'', Itoa profileNum] @ ''/'';
          relURL = url_Parse relPath
      in if \<not> parses (ClientConfig.BaseURL isyConfig) then Inl ''invalid ISY base URL''
         else
           (let baseURL = url_Parse (ClientConfig.BaseURL isyConfig);
                prefix = ''n'' @ Sprintf_03d profileNum @ ''_''
            in Inr \<lparr>rawReqs = make_chan 0,
                     client = \<lparr>BaseURL = ResolveReference baseURL relURL,
                                AddrPrefix = prefix,
                                Username = ClientConfig.Username isyConfig,
                                Password = ClientConfig.Password isyConfig\<rparr>,
                     username = Config.Username config,
                     passwordSHA256 = sha256sum (Config.Password config),
                     addrPrefix = prefix\<rparr>))"

section \<open>The outbound client\<close>

text \<open>
  The request \<open>nsClient.Request\<close> builds, and what the transport answers.
  \<open>http.NewRequest\<close> may refuse the URL; \<open>http.DefaultClient.Do\<close> returns a response and
  no error, or an error together with a nil response (the connection failed) or with the
  last response (the redirect policy failed). Both are parameters: \<open>transport\<close>.
\<close>

record outbound =
  Method :: string
  Target :: URL
  Auth :: "string \<times> string"

record Response =
  StatusCode :: int
  Status :: string

datatype Do_result =
  Do_ok Response
| Do_err "Response option" string

record transport =
  NewRequest_err :: "URL \<Rightarrow> string option"
  Do :: "outbound \<Rightarrow> Do_result"

text \<open>
  What a call of a Go function of result type \<open>error\<close> does: it returns (\<open>None\<close> is the
  nil error) or it panics.
\<close>

datatype outcome = Return "string option" | Panic string

text \<open>
  \<open>nsClient.Request\<close>, with the requests it has handed to \<open>Do\<close>. The \<open>log.Printf\<close> line
  reads \<open>resp.StatusCode\<close> and \<open>resp.Status\<close> before \<open>err\<close> is tested; with a nil
  \<open>resp\<close> that is a nil pointer dereference.
\<close>

definition Request :: "transport \<Rightarrow> nsClient \<Rightarrow> URL \<Rightarrow> outcome \<times> outbound list" where
  "Request t c url =
     (let url1 = ResolveReference (nsClient.BaseURL c) url in
      case NewRequest_err t url1 of
        Some err \<Rightarrow> (Return (Some err), [])
      | None \<Rightarrow>
          (let rq = \<lparr>Method = ''GET'', Target = url1,
                      Auth = (nsClient.Username c, nsClient.Password c)\<rparr> in
           case Do t rq of
             Do_err None err \<Rightarrow> (Panic ''nil pointer dereference'', [rq])
           | Do_err (Some resp) err \<Rightarrow> (Return (Some err), [rq])
           | Do_ok resp \<Rightarrow>
               if StatusCode resp \<ge> 400 then (Return (Some (Status resp)), [rq])
               else (Return None, [rq])))"

text \<open>
  \<open>nsClient.Request\<close> as the file \<open>isyns/server.go\<close> has it: the same function without the
  \<open>log.Printf\<close> line.
\<close>

definition Request_unlogged :: "transport \<Rightarrow> nsClient \<Rightarrow> URL \<Rightarrow> outcome \<times> outbound list" where
  "Request_unlogged t c url =
     (let url1 = ResolveReference (nsClient.BaseURL c) url in
      case NewRequest_err t url1 of
        Some err \<Rightarrow> (Return (Some err), [])
      | None \<Rightarrow>
          (let rq = \<lparr>Method = ''GET'', Target = url1,
                      Auth = (nsClient.Username c, nsClient.Password c)\<rparr> in
           case Do t rq of
             Do_err resp err \<Rightarrow> (Return (Some err), [rq])
           | Do_ok resp \<Rightarrow>
               if StatusCode resp \<ge> 400 then (Return (Some (Status resp)), [rq])
               else (Return None, [rq])))"

text \<open>
  \<open>nsClient.MakeURL\<close>. The joined path of escaped parts always parses (its first part is
  a constant of the callers), so the dropped error of \<open>url.Parse\<close> is not a branch.
\<close>

definition MakeURL :: "nsClient \<Rightarrow> string list \<Rightarrow> URL" where
  "MakeURL c parts =
     (let parts1 = map PathEscape parts;
          rel = path_Join parts1;
          relURL = url_Parse rel
      in ResolveReference (nsClient.BaseURL c) relURL)"

definition ReportRequestStatus ::
  "transport \<Rightarrow> nsClient \<Rightarrow> string \<Rightarrow> bool \<Rightarrow> outcome \<times> outbound list" where
  "ReportRequestStatus t c rid success =
     (let url = (if success then MakeURL c [''report'', ''status'', rid, ''success'']
                 else MakeURL c [''report'', ''status'', rid, ''fail''])
      in Request t c url)"

text \<open>
  \<open>nsClient.AddNode\<close>. The query of the URL that \<open>MakeURL\<close> returns is empty (a \<open>?\<close> in a
  part is escaped), so \<open>qs\<close> starts empty; \<open>qs.Encode()\<close> lists the pairs sorted by key.
\<close>

definition AddNode ::
  "transport \<Rightarrow> nsClient \<Rightarrow> string \<Rightarrow> string \<Rightarrow> string \<Rightarrow> string \<Rightarrow> outcome \<times> outbound list" where
  "AddNode t c addr defId primaryAddr nodeName =
     (let addr1 = FormatAddr c addr;
          primaryAddr1 = (if primaryAddr \<noteq> [] then FormatAddr c primaryAddr else primaryAddr);
          url = MakeURL c [''nodes'', addr1, ''add'', defId];
          qs = (if nodeName \<noteq> [] then [(''name'', nodeName)] else []) @
               (if primaryAddr1 \<noteq> [] then [(''primary'', primaryAddr1)] else [])
      in Request t c (SetRawQuery url qs))"

text \<open>\<open>Server.AddNode\<close> and \<open>request.Complete\<close>.\<close>

definition Server_AddNode ::
  "transport \<Rightarrow> Server \<Rightarrow> string \<Rightarrow> string \<Rightarrow> string \<Rightarrow> string \<Rightarrow> outcome \<times> outbound list" where
  "Server_AddNode t s addr defId primaryAddr nodeName =
     AddNode t (client s) addr defId primaryAddr nodeName"

definition Complete :: "transport \<Rightarrow> request \<Rightarrow> bool \<Rightarrow> outcome \<times> outbound list" where
  "Complete t r success =
     (if id' r = [] then (Return None, [])
      else ReportRequestStatus t (client (server r)) (id' r) success)"

text \<open>
  Two transports for evaluating the client at concrete inputs: one that answers every
  request with 200, and one on which every connection fails.
\<close>

definition transport_ok :: transport where
  "transport_ok =
     \<lparr>NewRequest_err = (\<lambda>u. None),
      Do = (\<lambda>rq. Do_ok \<lparr>StatusCode = 200, Status = ''200 OK''\<rparr>)\<rparr>"

definition transport_refused :: transport where
  "transport_refused =
     \<lparr>NewRequest_err = (\<lambda>u. None),
      Do = (\<lambda>rq. Do_err None ''dial tcp: connection refused'')\<rparr>"

section \<open>Handler goroutines and the channel\<close>

text \<open>
  The library runs \<open>Server.handler\<close> in one goroutine per inbound call; consumers receive
  from \<open>s.Requests\<close>. A state of this system holds, for each handler goroutine, the
  effects it has still to perform, the values waiting in the buffer of the channel, and
  the events observed so far: a status written to the controller by handler \<open>i\<close>, and a
  request of handler \<open>i\<close> received by consumer \<open>c\<close>.
\<close>

datatype 'u event =
  Responded (who: nat) nat
| Received nat (who: nat) "'u Request"

record 'u sys =
  pending :: "'u effect list list"
  buffer :: "(nat \<times> 'u Request) list"
  trace :: "'u event list"

definition sys_init :: "'u effect list list \<Rightarrow> 'u sys" where
  "sys_init hs = \<lparr>pending = hs, buffer = [], trace = []\<rparr>"

text \<open>
  One step of the system, by Go's rules for channels. A handler whose next effect writes
  to the controller performs it. A send on a channel of capacity 0 completes only together
  with a receive: the value passes to a consumer \<open>c\<close> in the same step. A send on a channel
  with a buffer completes when the buffer has room, and a consumer receives the value at
  the head of the buffer later. A handler whose send cannot complete does not move.
  Every send of a handler is on the one channel \<open>rawReqs\<close>, whose buffer the state holds.
  Consumers are not constrained: one of them is ready to receive whenever a value is
  offered, so every interleaving with any number of consumers is a run of the relation.
\<close>

inductive step :: "'u sys \<Rightarrow> 'u sys \<Rightarrow> bool" where
  respond_error:
    "i < length (pending \<sigma>) \<Longrightarrow> pending \<sigma> ! i = http_Error msg code # rest \<Longrightarrow>
     step \<sigma> (\<sigma>\<lparr>pending := (pending \<sigma>)[i := rest],
                 trace := trace \<sigma> @ [Responded i code]\<rparr>)"
| respond_header:
    "i < length (pending \<sigma>) \<Longrightarrow> pending \<sigma> ! i = WriteHeader code # rest \<Longrightarrow>
     step \<sigma> (\<sigma>\<lparr>pending := (pending \<sigma>)[i := rest],
                 trace := trace \<sigma> @ [Responded i code]\<rparr>)"
| send_rendezvous:
    "i < length (pending \<sigma>) \<Longrightarrow> pending \<sigma> ! i = chan_send (make_chan 0) rq # rest \<Longrightarrow>
     step \<sigma> (\<sigma>\<lparr>pending := (pending \<sigma>)[i := rest],
                 trace := trace \<sigma> @ [Received c i rq]\<rparr>)"
| send_buffered:
    "i < length (pending \<sigma>) \<Longrightarrow> pending \<sigma> ! i = chan_send (make_chan cap) rq # rest \<Longrightarrow>
     length (buffer \<sigma>) < cap \<Longrightarrow>
     step \<sigma> (\<sigma>\<lparr>pending := (pending \<sigma>)[i := rest],
                 buffer := buffer \<sigma> @ [(i, rq)]\<rparr>)"
| receive_buffered:
    "buffer \<sigma> = (i, rq) # b \<Longrightarrow>
     step \<sigma> (\<sigma>\<lparr>buffer := b, trace := trace \<sigma> @ [Received c i rq]\<rparr>)"

text \<open>The events of the trace that concern handler \<open>i\<close>, in order.\<close>

definition events_of :: "nat \<Rightarrow> 'u sys \<Rightarrow> 'u event list" where
  "events_of i \<sigma> = filter (\<lambda>e. who e = i) (trace \<sigma>)"

text \<open>
  Where handler \<open>i\<close>, whose effects are \<open>h\<close>, stands in a state: it has not started; it
  has answered with an error and returned; it has acknowledged and waits at its send; or
  it has acknowledged, a consumer \<open>c\<close> has received its request, and it has returned.
\<close>

definition handler_stage :: "nat \<Rightarrow> 'u effect list \<Rightarrow> 'u sys \<Rightarrow> bool" where
  "handler_stage i h \<sigma> =
     ((pending \<sigma> ! i = h \<and> events_of i \<sigma> = []) \<or>
      (\<exists>msg code. h = [http_Error msg code] \<and> pending \<sigma> ! i = [] \<and>
         events_of i \<sigma> = [Responded i code]) \<or>
      (\<exists>ch rq. h = [WriteHeader 204, chan_send ch rq] \<and> pending \<sigma> ! i = [chan_send ch rq] \<and>
         events_of i \<sigma> = [Responded i 204]) \<or>
      (\<exists>ch rq c. h = [WriteHeader 204, chan_send ch rq] \<and> pending \<sigma> ! i = [] \<and>
         events_of i \<sigma> = [Responded i 204, Received c i rq]))"

text \<open>
  The two shapes of what a handler does, \<open>ch\<close> being the channel of its send: one error
  response, or the acknowledgement followed by one send.
\<close>

definition handler_effects :: "chan \<Rightarrow> 'u effect list \<Rightarrow> bool" where
  "handler_effects ch h =
     ((\<exists>msg code. h = [http_Error msg code]) \<or> (\<exists>rq. h = [WriteHeader 204, chan_send ch rq]))"

section \<open>Properties\<close>

subsection \<open>The loop of \<open>makeCommandParams\<close>\<close>

text \<open>
  Every entry of the result was written by an iteration on a key other than \<open>requestId\<close>
  that has a first value; an entry, once written, is never removed; every such key writes
  an entry under its name.
\<close>

lemma makeCommandParams_loop_sound:
  "Params_lookup (makeCommandParams_loop isy q ret) n = Some p \<Longrightarrow>
   Params_lookup ret n = Some p \<or>
   (\<exists>k v vs. (k, v # vs) \<in> set q \<and> k \<noteq> ''requestId'' \<and>
      name_uom isy k = (n, UOM p) \<and> Value p = v)"
proof (induction isy q ret rule: makeCommandParams_loop.induct)
  case (1 isy ret)
  then show ?case by simp
next
  case (2 isy k vs rest ret)
  show ?case
  proof (cases "k = ''requestId'' \<or> vs = []")
    case True
    then have "makeCommandParams_loop isy ((k, vs) # rest) ret =
      makeCommandParams_loop isy rest ret" by auto
    with "2.prems" have "Params_lookup (makeCommandParams_loop isy rest ret) n = Some p"
      by simp
    with True "2.IH"(1,2) have "Params_lookup ret n = Some p \<or>
      (\<exists>k v vs. (k, v # vs) \<in> set rest \<and> k \<noteq> ''requestId'' \<and>
        name_uom isy k = (n, UOM p) \<and> Value p = v)" by blast
    then show ?thesis by auto
  next
    case False
    then obtain v vs' where vs: "vs = v # vs'" by (cases vs) auto
    obtain nm u where nu: "name_uom isy k = (nm, u)" by (cases "name_uom isy k") auto
    let ?ret1 = "case ret of None \<Rightarrow> Map.empty | Some m \<Rightarrow> m"
    let ?ret2 = "Some (?ret1(nm \<mapsto> \<lparr>Value = v, UOM = u\<rparr>))"
    from False vs nu "2.prems"
    have "Params_lookup (makeCommandParams_loop isy rest ?ret2) n = Some p" by simp
    with "2.IH"(3)[of "(nm, u)" nm u ?ret1] False vs nu
    have "Params_lookup ?ret2 n = Some p \<or>
      (\<exists>k v vs. (k, v # vs) \<in> set rest \<and> k \<noteq> ''requestId'' \<and>
        name_uom isy k = (n, UOM p) \<and> Value p = v)" by simp
    then show ?thesis
    proof
      assume a: "Params_lookup ?ret2 n = Some p"
      show ?thesis
      proof (cases "n = nm")
        case True
        with a have "p = \<lparr>Value = v, UOM = u\<rparr>" by (simp add: Params_lookup_def)
        with True nu vs False show ?thesis by auto
      next
        case False
        with a have "Params_lookup ret n = Some p"
          by (simp add: Params_lookup_def split: option.splits)
        then show ?thesis by simp
      qed
    next
      assume "\<exists>k v vs. (k, v # vs) \<in> set rest \<and> k \<noteq> ''requestId'' \<and>
        name_uom isy k = (n, UOM p) \<and> Value p = v"
      then show ?thesis by auto
    qed
  qed
qed

lemma makeCommandParams_loop_keeps:
  "Params_lookup ret n \<noteq> None \<Longrightarrow> Params_lookup (makeCommandParams_loop isy q ret) n \<noteq> None"
proof (induction isy q ret rule: makeCommandParams_loop.induct)
  case (1 isy ret)
  then show ?case by simp
next
  case (2 isy k vs rest ret)
  show ?case
  proof (cases "k = ''requestId'' \<or> vs = []")
    case True
    then have "makeCommandParams_loop isy ((k, vs) # rest) ret =
      makeCommandParams_loop isy rest ret" by auto
    moreover from True "2.IH"(1,2) "2.prems"
    have "Params_lookup (makeCommandParams_loop isy rest ret) n \<noteq> None" by blast
    ultimately show ?thesis by simp
  next
    case False
    obtain nm u where nu: "name_uom isy k = (nm, u)" by (cases "name_uom isy k") auto
    let ?ret1 = "case ret of None \<Rightarrow> Map.empty | Some m \<Rightarrow> m"
    let ?ret2 = "Some (?ret1(nm \<mapsto> \<lparr>Value = vs ! 0, UOM = u\<rparr>))"
    from "2.prems" have "Params_lookup ?ret2 n \<noteq> None"
      by (simp add: Params_lookup_def split: option.splits)
    with "2.IH"(3)[of "(nm, u)" nm u ?ret1] False nu
    have "Params_lookup (makeCommandParams_loop isy rest ?ret2) n \<noteq> None" by simp
    with False nu show ?thesis by simp
  qed
qed

lemma makeCommandParams_loop_complete:
  "(k, v # vs) \<in> set q \<Longrightarrow> k \<noteq> ''requestId'' \<Longrightarrow>
   Params_lookup (makeCommandParams_loop isy q ret) (fst (name_uom isy k)) \<noteq> None"
proof (induction isy q ret rule: makeCommandParams_loop.induct)
  case (1 isy ret)
  then show ?case by simp
next
  case (2 isy k' vs' rest ret)
  show ?case
  proof (cases "k' = ''requestId'' \<or> vs' = []")
    case True
    then have eq: "makeCommandParams_loop isy ((k', vs') # rest) ret =
      makeCommandParams_loop isy rest ret" by auto
    from True "2.prems" have "(k, v # vs) \<in> set rest" by auto
    with True "2.IH"(1,2) "2.prems"
    have "Params_lookup (makeCommandParams_loop isy rest ret) (fst (name_uom isy k)) \<noteq> None"
      by blast
    with eq show ?thesis by simp
  next
    case False
    obtain nm u where nu: "name_uom isy k' = (nm, u)" by (cases "name_uom isy k'") auto
    let ?ret1 = "case ret of None \<Rightarrow> Map.empty | Some m \<Rightarrow> m"
    let ?ret2 = "Some (?ret1(nm \<mapsto> \<lparr>Value = vs' ! 0, UOM = u\<rparr>))"
    have step: "makeCommandParams_loop isy ((k', vs') # rest) ret =
      makeCommandParams_loop isy rest ?ret2" using False nu by simp
    show ?thesis
    proof (cases "(k, v # vs) = (k', vs')")
      case True
      then have "fst (name_uom isy k) = nm" using nu by simp
      then have "Params_lookup ?ret2 (fst (name_uom isy k)) \<noteq> None"
        by (simp add: Params_lookup_def)
      then show ?thesis unfolding step by (rule makeCommandParams_loop_keeps)
    next
      case False
      with "2.prems" have "(k, v # vs) \<in> set rest" by auto
      with "2.IH"(3)[of "(nm, u)" nm u ?ret1] \<open>\<not> (k' = ''requestId'' \<or> vs' = [])\<close> nu "2.prems"
      show ?thesis unfolding step by simp
    qed
  qed
qed


lemma makeCommandParams_loop_all_skipped:
  "\<forall>k vs. (k, vs) \<in> set q \<longrightarrow> k = ''requestId'' \<or> vs = [] \<Longrightarrow>
   makeCommandParams_loop isy q ret = ret"
proof (induction isy q ret rule: makeCommandParams_loop.induct)
  case (1 isy ret)
  show ?case by simp
next
  case (2 isy k vs rest ret)
  from "2.prems" have sk: "k = ''requestId'' \<or> vs = []" by simp
  from "2.prems" have r: "\<forall>k vs. (k, vs) \<in> set rest \<longrightarrow> k = ''requestId'' \<or> vs = []"
    by simp
  from sk have "makeCommandParams_loop isy ((k, vs) # rest) ret =
      makeCommandParams_loop isy rest ret" by auto
  moreover from sk r "2.IH"(1,2) have "makeCommandParams_loop isy rest ret = ret" by blast
  ultimately show ?case by simp
qed

lemma Params_lookup_None [simp]: "Params_lookup None n = None"
  by (simp add: Params_lookup_def)

lemma makeCommandParams_survivor:
  assumes "(k, v # vs) \<in> set q" "k \<noteq> ''requestId''"
  shows "\<exists>k' v' vs'. (k', v' # vs') \<in> set q \<and> k' \<noteq> ''requestId'' \<and>
     fst (name_uom isy k') = fst (name_uom isy k) \<and>
     Params_lookup (makeCommandParams_loop isy q None) (fst (name_uom isy k)) =
       Some \<lparr>Value = v', UOM = snd (name_uom isy k')\<rparr>"
proof -
  let ?n = "fst (name_uom isy k)"
  from assms have "Params_lookup (makeCommandParams_loop isy q None) ?n \<noteq> None"
    by (rule makeCommandParams_loop_complete)
  then obtain p where p: "Params_lookup (makeCommandParams_loop isy q None) ?n = Some p"
    by auto
  from makeCommandParams_loop_sound [OF p]
  obtain k' v' vs' where k': "(k', v' # vs') \<in> set q" "k' \<noteq> ''requestId''"
    "name_uom isy k' = (?n, UOM p)" "Value p = v'"
    by auto
  have "snd (name_uom isy k') = UOM p" by (simp only: k'(3) snd_conv)
  then have "p = \<lparr>Value = v', UOM = snd (name_uom isy k')\<rparr>"
    using k'(4) by (cases p) simp
  have n': "fst (name_uom isy k') = ?n" by (simp only: k'(3) fst_conv)
  with p k'(1,2) n' \<open>p = \<lparr>Value = v', UOM = snd (name_uom isy k')\<rparr>\<close>
  show ?thesis by blast
qed

lemma makeCommandParams_unique:
  assumes wf: "wf_Values q"
    and k: "(k, v # vs) \<in> set q" "k \<noteq> ''requestId''"
    and uniq: "\<forall>k2 w ws. (k2, w # ws) \<in> set q \<and> k2 \<noteq> ''requestId'' \<and>
       fst (name_uom isy k2) = fst (name_uom isy k) \<longrightarrow> k2 = k"
  shows "Params_lookup (makeCommandParams_loop isy q None) (fst (name_uom isy k)) =
       Some \<lparr>Value = v, UOM = snd (name_uom isy k)\<rparr>"
proof -
  from makeCommandParams_survivor [OF k, of isy]
  obtain k' v' vs' where k': "(k', v' # vs') \<in> set q" "k' \<noteq> ''requestId''"
    "fst (name_uom isy k') = fst (name_uom isy k)"
    "Params_lookup (makeCommandParams_loop isy q None) (fst (name_uom isy k)) =
       Some \<lparr>Value = v', UOM = snd (name_uom isy k')\<rparr>"
    by blast
  from uniq k'(1,2,3) have kk: "k' = k" by blast
  from wf have "distinct (map fst q)" by (simp add: wf_Values_def)
  with k(1) k'(1) kk have "v' # vs' = v # vs"
    by (metis eq_key_imp_eq_value)
  with k'(4) kk show ?thesis by simp
qed


subsection \<open>The first occurrence of the separator, and decimal digits\<close>

lemma HasPrefix_append:
  "length sep \<le> length s \<Longrightarrow> HasPrefix (s @ rest) sep = HasPrefix s sep"
  by (simp add: HasPrefix_def)

lemma Index_first_append:
  "Index (name @ sep) sep = int (length name) \<Longrightarrow>
   Index (name @ sep @ rest) sep = int (length name)"
proof (induction name)
  case Nil
  show ?case
  proof (cases "sep @ rest")
    case Nil
    then show ?thesis by simp
  next
    case (Cons a list)
    have "HasPrefix (sep @ rest) sep" by (simp add: HasPrefix_def)
    then have "HasPrefix (a # list) sep" using Cons by simp
    then have "Index (a # list) sep = 0" by simp
    then show ?thesis using Cons by simp
  qed
next
  case (Cons c name)
  have hp: "HasPrefix (c # name @ sep @ rest) sep = HasPrefix (c # name @ sep) sep"
    using HasPrefix_append [of sep "c # name @ sep" rest] by simp
  from Cons.prems have nhp: "\<not> HasPrefix (c # name @ sep) sep"
    by (auto split: if_splits)
  with Cons.prems have "Index (name @ sep) sep = int (length name)"
    by (auto simp: Let_def split: if_splits)
  then have "Index (name @ sep @ rest) sep = int (length name)" by (rule Cons.IH)
  with nhp hp show ?case by (simp add: Let_def)
qed

lemma name_uom_no_uom:
  "Index k ''.uom'' = - 1 \<Longrightarrow> name_uom isy k = (k, UOMUnknown isy)"
  by (simp add: name_uom_def)

lemma name_uom_split:
  assumes "Index (name @ ''.uom'') ''.uom'' = int (length name)"
  shows "name_uom isy (name @ ''.uom'' @ rest) =
    (case Atoi rest of
       None \<Rightarrow> (name @ ''.uom'' @ rest, UOMUnknown isy)
     | Some unit \<Rightarrow> (name, UOM_conv isy unit))"
proof -
  have i: "Index (name @ ''.uom'' @ rest) ''.uom'' = int (length name)"
    using assms by (rule Index_first_append)
  have a: "slice (name @ ''.uom'' @ rest) 0 (length name) = name"
    by (simp add: slice_def)
  have b: "slice_from (name @ ''.uom'' @ rest) (length name + 4) = rest"
    by (simp add: slice_from_def)
  show ?thesis
    unfolding name_uom_def Let_def i using a b by (simp split: option.splits)
qed

lemma digits_val_fold:
  "list_all isDigit ds \<Longrightarrow>
   digits_val ds n = Some (fold (\<lambda>c n. n * 10 + (of_char c - 48)) ds n)"
  by (induction ds arbitrary: n) auto

lemma Atoi_digits:
  assumes "ds \<noteq> []" "list_all isDigit ds"
    and "fold (\<lambda>c n. n * 10 + (of_char c - 48)) ds (0::nat) < 2 ^ 63"
  shows "Atoi ds = Some (int (fold (\<lambda>c n. n * 10 + (of_char c - 48)) ds 0))"
proof -
  obtain c cs where ds: "ds = c # cs" using assms(1) by (cases ds) auto
  with assms(2) have "isDigit c" by simp
  then have ns: "c \<noteq> CHR ''-''" "c \<noteq> CHR ''+''" by (auto simp: isDigit_def)
  let ?d = "fold (\<lambda>c n. n * 10 + (of_char c - 48)) ds 0"
  have dv: "digits_val ds 0 = Some ?d" using assms(2) by (rule digits_val_fold)
  have "int ?d < int (2 ^ 63)" using assms(3) by (simp only: of_nat_less_iff)
  then have "int ?d < 2 ^ 63" by simp
  then have r: "in_int_range (int ?d)" by (simp add: in_int_range_def intSize_def)
  show ?thesis
    unfolding Atoi_def using ds ns dv r by (simp add: Let_def)
qed

subsection \<open>The query string of the specification's example\<close>

lemma ParseQuery_example:
  "ParseQuery ''level.uom2=50&mode=auto&requestId=r1'' =
     [(''level.uom2'', [''50'']), (''mode'', [''auto'']), (''requestId'', [''r1''])]"
  by (simp add: ParseQuery_def Values_append_def)

lemma name_uom_level: "name_uom isy ''level.uom2'' = (''level'', UOM_conv isy 2)"
  by (simp add: name_uom_def HasPrefix_def slice_def slice_from_def Atoi_def isDigit_def
      in_int_range_def intSize_def)

lemma name_uom_mode: "name_uom isy ''mode'' = (''mode'', UOMUnknown isy)"
  by (simp add: name_uom_def HasPrefix_def)

lemma query_example:
  assumes wf: "wf_Values (URL_Query r)"
    and q: "set (URL_Query r) = set (ParseQuery ''level.uom2=50&mode=auto&requestId=r1'')"
  shows "makeCommandParams isy r =
      Some [''level'' \<mapsto> \<lparr>Value = ''50'', UOM = UOM_conv isy 2\<rparr>,
            ''mode'' \<mapsto> \<lparr>Value = ''auto'', UOM = UOMUnknown isy\<rparr>] \<and>
    id' (makeCommonReq s r) = ''r1''"
proof -
  let ?q = "URL_Query r"
  let ?res = "makeCommandParams_loop isy ?q None"
  have sq: "set ?q = {(''level.uom2'', [''50'']), (''mode'', [''auto'']), (''requestId'', [''r1''])}"
    using q by (simp add: ParseQuery_example)
  have u1: "\<forall>k2 w ws. (k2, w # ws) \<in> set ?q \<and> k2 \<noteq> ''requestId'' \<and>
      fst (name_uom isy k2) = fst (name_uom isy ''level.uom2'') \<longrightarrow> k2 = ''level.uom2''"
    by (auto simp: sq name_uom_level name_uom_mode)
  have u2: "\<forall>k2 w ws. (k2, w # ws) \<in> set ?q \<and> k2 \<noteq> ''requestId'' \<and>
      fst (name_uom isy k2) = fst (name_uom isy ''mode'') \<longrightarrow> k2 = ''mode''"
    by (auto simp: sq name_uom_level name_uom_mode)
  have i1: "(''level.uom2'', [''50'']) \<in> set ?q" and i2: "(''mode'', [''auto'']) \<in> set ?q"
    by (simp_all add: sq)
  have lv: "Params_lookup ?res ''level'' = Some \<lparr>Value = ''50'', UOM = UOM_conv isy 2\<rparr>"
    using makeCommandParams_unique [OF wf i1 _ u1] by (simp add: name_uom_level)
  have md: "Params_lookup ?res ''mode'' = Some \<lparr>Value = ''auto'', UOM = UOMUnknown isy\<rparr>"
    using makeCommandParams_unique [OF wf i2 _ u2] by (simp add: name_uom_mode)
  have other: "Params_lookup ?res n = None" if "n \<noteq> ''level''" "n \<noteq> ''mode''" for n
  proof (cases "Params_lookup ?res n")
    case None
    then show ?thesis .
  next
    case (Some p)
    from makeCommandParams_loop_sound [OF Some]
    obtain k v vs where "(k, v # vs) \<in> set ?q" "k \<noteq> ''requestId''"
      "name_uom isy k = (n, UOM p)" by auto
    with that show ?thesis by (auto simp: sq name_uom_level name_uom_mode)
  qed
  from lv obtain m where m: "?res = Some m"
    by (cases ?res) (simp_all add: Params_lookup_def)
  have "m = [''level'' \<mapsto> \<lparr>Value = ''50'', UOM = UOM_conv isy 2\<rparr>,
            ''mode'' \<mapsto> \<lparr>Value = ''auto'', UOM = UOMUnknown isy\<rparr>]"
  proof
    fix n
    show "m n = [''level'' \<mapsto> \<lparr>Value = ''50'', UOM = UOM_conv isy 2\<rparr>,
            ''mode'' \<mapsto> \<lparr>Value = ''auto'', UOM = UOMUnknown isy\<rparr>] n"
      using lv md other [of n] by (auto simp: m Params_lookup_def)
  qed
  then have a: "makeCommandParams isy r =
      Some [''level'' \<mapsto> \<lparr>Value = ''50'', UOM = UOM_conv isy 2\<rparr>,
            ''mode'' \<mapsto> \<lparr>Value = ''auto'', UOM = UOMUnknown isy\<rparr>]"
    by (simp add: makeCommandParams_def m)
  have "distinct (map fst ?q)" using wf by (simp add: wf_Values_def)
  moreover have "(''requestId'', [''r1'']) \<in> set ?q" by (simp add: sq)
  ultimately have "map_of ?q ''requestId'' = Some [''r1'']" by (rule map_of_is_SomeI)
  then have b: "id' (makeCommonReq s r) = ''r1''"
    by (simp add: makeCommonReq_def Values_Get_def)
  from a b show ?thesis by simp
qed

lemma example_call_query:
  "URL_Query (example_call path) =
     [(''level.uom2'', [''50'']), (''mode'', [''auto'']), (''requestId'', [''r1''])]"
  by (simp add: example_call_def ParseQuery_example)

text \<open>
  Keys that the rule of the loop treats in ways of their own: a sign is accepted before
  the digits, digits beyond the range of \<open>int\<close> are not a unit, and the name
  \<open>requestId\<close> can be decoded from a key that is not \<open>requestId\<close>.
\<close>

lemma name_uom_signed:
  "name_uom isy ''t.uom-5'' = (''t'', UOM_conv isy (- 5)) \<and>
   name_uom isy ''t.uom+5'' = (''t'', UOM_conv isy 5)"
  by (simp add: name_uom_def HasPrefix_def slice_def slice_from_def Atoi_def isDigit_def
      in_int_range_def intSize_def)

lemma name_uom_out_of_range:
  "name_uom isy ''t.uom9223372036854775808'' = (''t.uom9223372036854775808'', UOMUnknown isy)"
  by (simp add: name_uom_def HasPrefix_def slice_def slice_from_def Atoi_def isDigit_def
      in_int_range_def intSize_def)

lemma name_uom_requestId:
  "name_uom isy ''requestId.uom7'' = (''requestId'', UOM_conv isy 7)"
  by (simp add: name_uom_def HasPrefix_def slice_def slice_from_def Atoi_def isDigit_def
      in_int_range_def intSize_def)

lemma name_uom_plain_level: "name_uom isy ''level'' = (''level'', UOMUnknown isy)"
  by (simp add: name_uom_def HasPrefix_def)

lemma command_request_fields:
  assumes "nm = ''nodeCommand'' \<or> nm = ''nodeCommandValue'' \<or> nm = ''nodeCommandValueUnit''"
    and "handler_switch isy s r nm vars = Some rq"
  shows "Params rq = makeCommandParams isy r \<and> req rq = makeCommonReq s r"
  using assms by (elim disjE) (auto simp: handler_switch_def split: option.splits)

subsection \<open>Decoding of command parameters\<close>

text \<open>
  Claim C1, as the code has it. For a query key \<open>k\<close>, \<open>name_uom\<close> gives the name and the
  unit of its parameter.
  \<^item> A key in which \<open>.uom\<close> does not occur keeps its name and has the unknown unit.
  \<^item> A key \<open>name.uom rest\<close>, split at the first occurrence of \<open>.uom\<close>, has the name \<open>name\<close>
    and the unit \<open>rest\<close> parses to when \<open>strconv.Atoi\<close> accepts \<open>rest\<close>; otherwise the
    whole key is the name and the unit is unknown.
  \<^item> \<open>strconv.Atoi\<close> accepts a non-empty sequence of digits whose value is below \<open>2^63\<close>,
    and gives that value.
  \<^item> The correlation id is the first value of the key \<open>requestId\<close>.
  \<^item> Every decoded parameter comes from a key other than \<open>requestId\<close> that has a value,
    and carries the first value of that key: \<open>requestId\<close> and keys without values are
    skipped.
  \<^item> A key other than \<open>requestId\<close> that has a value, and whose name no other such key
    decodes to, yields its parameter, whatever the order in which the map is visited.
  \<^item> When every key is \<open>requestId\<close> or has no value, no parameter is decoded and the map
    stays nil.
  \<^item> The requests of the three \<open>cmd\<close> routes carry these parameters and this id.
  \<^item> The query string \<open>level.uom2=50&mode=auto&requestId=r1\<close> decodes to exactly the two
    parameters \<open>level\<close> (value 50, unit 2) and \<open>mode\<close> (value auto, unit unknown), with the
    correlation id \<open>r1\<close>, in every order of visit.
\<close>

theorem C1_query_decoding:
  "(Index k ''.uom'' = - 1 \<longrightarrow> name_uom isy k = (k, UOMUnknown isy)) \<and>
   (Index (name @ ''.uom'') ''.uom'' = int (length name) \<longrightarrow>
      name_uom isy (name @ ''.uom'' @ rest) =
        (case Atoi rest of
           None \<Rightarrow> (name @ ''.uom'' @ rest, UOMUnknown isy)
         | Some unit \<Rightarrow> (name, UOM_conv isy unit))) \<and>
   (ds \<noteq> [] \<and> list_all isDigit ds \<and>
      fold (\<lambda>c n. n * 10 + (of_char c - 48)) ds (0::nat) < 2 ^ 63 \<longrightarrow>
      Atoi ds = Some (int (fold (\<lambda>c n. n * 10 + (of_char c - 48)) ds 0))) \<and>
   id' (makeCommonReq s r) = Values_Get (URL_Query r) ''requestId'' \<and>
   (Params_lookup (makeCommandParams isy r) n = Some p \<longrightarrow>
      (\<exists>k v vs. (k, v # vs) \<in> set (URL_Query r) \<and> k \<noteq> ''requestId'' \<and>
         name_uom isy k = (n, UOM p) \<and> Value p = v)) \<and>
   (wf_Values (URL_Query r) \<and> (k1, v1 # vs1) \<in> set (URL_Query r) \<and> k1 \<noteq> ''requestId'' \<and>
      (\<forall>k2 w ws. (k2, w # ws) \<in> set (URL_Query r) \<and> k2 \<noteq> ''requestId'' \<and>
         fst (name_uom isy k2) = fst (name_uom isy k1) \<longrightarrow> k2 = k1) \<longrightarrow>
      Params_lookup (makeCommandParams isy r) (fst (name_uom isy k1)) =
        Some \<lparr>Value = v1, UOM = snd (name_uom isy k1)\<rparr>) \<and>
   (wf_Values (URL_Query r) \<and>
      set (URL_Query r) = set (ParseQuery ''level.uom2=50&mode=auto&requestId=r1'') \<longrightarrow>
      makeCommandParams isy r =
        Some [''level'' \<mapsto> \<lparr>Value = ''50'', UOM = UOM_conv isy 2\<rparr>,
              ''mode'' \<mapsto> \<lparr>Value = ''auto'', UOM = UOMUnknown isy\<rparr>] \<and>
      id' (makeCommonReq s r) = ''r1'') \<and>
   ((\<forall>k vs. (k, vs) \<in> set (URL_Query rz) \<longrightarrow> k = ''requestId'' \<or> vs = []) \<longrightarrow>
      makeCommandParams isy rz = None) \<and>
   ((nm = ''nodeCommand'' \<or> nm = ''nodeCommandValue'' \<or> nm = ''nodeCommandValueUnit'') \<and>
    handler_switch isy s r nm vars = Some rq \<longrightarrow>
      Params rq = makeCommandParams isy r \<and> req rq = makeCommonReq s r)"
proof (intro conjI impI)
  assume "Index k ''.uom'' = - 1"
  then show "name_uom isy k = (k, UOMUnknown isy)" by (rule name_uom_no_uom)
next
  assume "Index (name @ ''.uom'') ''.uom'' = int (length name)"
  then show "name_uom isy (name @ ''.uom'' @ rest) =
        (case Atoi rest of
           None \<Rightarrow> (name @ ''.uom'' @ rest, UOMUnknown isy)
         | Some unit \<Rightarrow> (name, UOM_conv isy unit))" by (rule name_uom_split)
next
  assume "ds \<noteq> [] \<and> list_all isDigit ds \<and>
      fold (\<lambda>c n. n * 10 + (of_char c - 48)) ds (0::nat) < 2 ^ 63"
  then show "Atoi ds = Some (int (fold (\<lambda>c n. n * 10 + (of_char c - 48)) ds 0))"
    using Atoi_digits by blast
next
  show "id' (makeCommonReq s r) = Values_Get (URL_Query r) ''requestId''"
    by (simp add: makeCommonReq_def)
next
  assume "Params_lookup (makeCommandParams isy r) n = Some p"
  then have "Params_lookup (makeCommandParams_loop isy (URL_Query r) None) n = Some p"
    by (simp add: makeCommandParams_def)
  from makeCommandParams_loop_sound [OF this]
  show "\<exists>k v vs. (k, v # vs) \<in> set (URL_Query r) \<and> k \<noteq> ''requestId'' \<and>
         name_uom isy k = (n, UOM p) \<and> Value p = v" by simp
next
  assume a: "wf_Values (URL_Query r) \<and> (k1, v1 # vs1) \<in> set (URL_Query r) \<and>
      k1 \<noteq> ''requestId'' \<and>
      (\<forall>k2 w ws. (k2, w # ws) \<in> set (URL_Query r) \<and> k2 \<noteq> ''requestId'' \<and>
         fst (name_uom isy k2) = fst (name_uom isy k1) \<longrightarrow> k2 = k1)"
  then have "Params_lookup (makeCommandParams_loop isy (URL_Query r) None)
      (fst (name_uom isy k1)) = Some \<lparr>Value = v1, UOM = snd (name_uom isy k1)\<rparr>"
    using makeCommandParams_unique [of "URL_Query r" k1 v1 vs1 isy] by blast
  then show "Params_lookup (makeCommandParams isy r) (fst (name_uom isy k1)) =
        Some \<lparr>Value = v1, UOM = snd (name_uom isy k1)\<rparr>"
    by (simp add: makeCommandParams_def)
next
  assume a: "wf_Values (URL_Query r) \<and>
      set (URL_Query r) = set (ParseQuery ''level.uom2=50&mode=auto&requestId=r1'')"
  then show "makeCommandParams isy r =
        Some [''level'' \<mapsto> \<lparr>Value = ''50'', UOM = UOM_conv isy 2\<rparr>,
              ''mode'' \<mapsto> \<lparr>Value = ''auto'', UOM = UOMUnknown isy\<rparr>]"
    using query_example [of r isy s] by blast
  from a show "id' (makeCommonReq s r) = ''r1''"
    using query_example [of r isy s] by blast
next
  assume "\<forall>k vs. (k, vs) \<in> set (URL_Query rz) \<longrightarrow> k = ''requestId'' \<or> vs = []"
  then show "makeCommandParams isy rz = None"
    unfolding makeCommandParams_def by (rule makeCommandParams_loop_all_skipped)
next
  assume a: "(nm = ''nodeCommand'' \<or> nm = ''nodeCommandValue'' \<or>
      nm = ''nodeCommandValueUnit'') \<and> handler_switch isy s r nm vars = Some rq"
  from command_request_fields [OF a [THEN conjunct1] a [THEN conjunct2]]
  show "Params rq = makeCommandParams isy r" and "req rq = makeCommonReq s r"
    by (rule conjunct1, rule conjunct2)
qed

text \<open>The statement of C1 at the example call, every hypothesis discharged.\<close>

theorem C1_query_decoding_witness:
  "name_uom isy_int ''mode'' = (''mode'', UOMUnknown isy_int) \<and>
   name_uom isy_int ''level.uom2'' = (''level'', UOM_conv isy_int 2) \<and>
   Atoi ''51'' = Some 51 \<and>
   id' (makeCommonReq example_server (example_call [])) = ''r1'' \<and>
   (\<exists>k v vs. (k, v # vs) \<in> set (URL_Query (example_call [])) \<and> k \<noteq> ''requestId'' \<and>
      name_uom isy_int k = (''level'', 2) \<and> v = ''50'') \<and>
   Params_lookup (makeCommandParams isy_int (example_call [])) ''level'' =
     Some \<lparr>Value = ''50'', UOM = UOM_conv isy_int 2\<rparr> \<and>
   makeCommandParams isy_int (example_call []) =
     Some [''level'' \<mapsto> \<lparr>Value = ''50'', UOM = UOM_conv isy_int 2\<rparr>,
           ''mode'' \<mapsto> \<lparr>Value = ''auto'', UOM = UOMUnknown isy_int\<rparr>] \<and>
   makeCommandParams isy_int
     \<lparr>BasicAuth = None, URL_Path = [],
      URL_Query = [(''requestId'', [''r1'']), (''flag'', [])]\<rparr> = None \<and>
   Params (CommandRequest (makeCommonReq example_server (example_call [])) ''AA'' ''DON'' None
             (makeCommandParams isy_int (example_call []))) =
     makeCommandParams isy_int (example_call [])"
proof -
  let ?r = "example_call []"
  let ?rz = "\<lparr>BasicAuth = None, URL_Path = [],
      URL_Query = [(''requestId'', [''r1'']), (''flag'', [])]\<rparr>"
  let ?vars = "[(''nodeAddr'', ''n001_AA''), (''command'', ''DON'')]"
  let ?rq = "CommandRequest (makeCommonReq example_server ?r) ''AA'' ''DON'' None
      (makeCommandParams isy_int ?r)"
  note C = C1_query_decoding [where k = "''mode''" and isy = isy_int and name = "''level''"
      and rest = "''2''" and ds = "''51''" and s = example_server and r = ?r
      and n = "''level''" and p = "\<lparr>Value = ''50'', UOM = 2\<rparr>"
      and ?k1.0 = "''level.uom2''" and ?v1.0 = "''50''" and ?vs1.0 = "[]"
      and rz = ?rz and nm = "''nodeCommand''" and vars = ?vars and rq = ?rq]
  have h1: "Index ''mode'' ''.uom'' = - 1" by (simp add: HasPrefix_def)
  have h2: "Index (''level'' @ ''.uom'') ''.uom'' = int (length ''level'')"
    by (simp add: HasPrefix_def)
  have a2: "Atoi ''2'' = Some 2"
    by (simp add: Atoi_def isDigit_def in_int_range_def intSize_def)
  have h3: "''51'' \<noteq> [] \<and> list_all isDigit ''51'' \<and>
      fold (\<lambda>c n. n * 10 + (of_char c - 48)) ''51'' (0::nat) < 2 ^ 63"
    by (simp add: isDigit_def)
  have wf: "wf_Values (URL_Query ?r)" by (simp add: example_call_query wf_Values_def)
  have h7: "set (URL_Query ?r) = set (ParseQuery ''level.uom2=50&mode=auto&requestId=r1'')"
    by (simp add: example_call_def)
  from C wf h7 have res: "makeCommandParams isy_int ?r =
     Some [''level'' \<mapsto> \<lparr>Value = ''50'', UOM = UOM_conv isy_int 2\<rparr>,
           ''mode'' \<mapsto> \<lparr>Value = ''auto'', UOM = UOMUnknown isy_int\<rparr>]"
    by blast
  from C wf h7 have g4: "id' (makeCommonReq example_server ?r) = ''r1''"
    by blast
  have c2: "UOM_conv isy_int 2 = 2" by (simp add: isy_int_def)
  have h5: "Params_lookup (makeCommandParams isy_int ?r) ''level'' =
     Some \<lparr>Value = ''50'', UOM = 2\<rparr>"
    by (simp add: res Params_lookup_def c2)
  from C h1 have g1: "name_uom isy_int ''mode'' = (''mode'', UOMUnknown isy_int)" by blast
  from C h2 have "name_uom isy_int (''level'' @ ''.uom'' @ ''2'') =
        (case Atoi ''2'' of
           None \<Rightarrow> (''level'' @ ''.uom'' @ ''2'', UOMUnknown isy_int)
         | Some unit \<Rightarrow> (''level'', UOM_conv isy_int unit))" by blast
  with a2 have g2: "name_uom isy_int ''level.uom2'' = (''level'', UOM_conv isy_int 2)"
    by simp
  from C h3 have "Atoi ''51'' =
      Some (int (fold (\<lambda>c n. n * 10 + (of_char c - 48)) ''51'' 0))" by blast
  then have g3: "Atoi ''51'' = Some 51" by simp
  from C h5 have "\<exists>k v vs. (k, v # vs) \<in> set (URL_Query ?r) \<and> k \<noteq> ''requestId'' \<and>
      name_uom isy_int k = (''level'', UOM \<lparr>Value = ''50'', UOM = 2::int\<rparr>) \<and>
      Value \<lparr>Value = ''50'', UOM = 2::int\<rparr> = v" by blast
  then have g5: "\<exists>k v vs. (k, v # vs) \<in> set (URL_Query ?r) \<and> k \<noteq> ''requestId'' \<and>
      name_uom isy_int k = (''level'', 2) \<and> v = ''50''" by auto
  have h6: "(''level.uom2'', ''50'' # []) \<in> set (URL_Query ?r) \<and>
      ''level.uom2'' \<noteq> ''requestId'' \<and>
      (\<forall>k2 w ws. (k2, w # ws) \<in> set (URL_Query ?r) \<and> k2 \<noteq> ''requestId'' \<and>
         fst (name_uom isy_int k2) = fst (name_uom isy_int ''level.uom2'') \<longrightarrow>
         k2 = ''level.uom2'')"
    by (auto simp: example_call_query name_uom_level name_uom_mode)
  from C wf h6 have "Params_lookup (makeCommandParams isy_int ?r)
      (fst (name_uom isy_int ''level.uom2'')) =
      Some \<lparr>Value = ''50'', UOM = snd (name_uom isy_int ''level.uom2'')\<rparr>" by blast
  then have g6: "Params_lookup (makeCommandParams isy_int ?r) ''level'' =
      Some \<lparr>Value = ''50'', UOM = UOM_conv isy_int 2\<rparr>" by (simp add: g2)
  have h8: "\<forall>k vs. (k, vs) \<in> set (URL_Query ?rz) \<longrightarrow> k = ''requestId'' \<or> vs = []"
    by simp
  from C h8 have g7: "makeCommandParams isy_int ?rz = None" by blast
  have h9: "(''nodeCommand'' = ''nodeCommand'' \<or> ''nodeCommand'' = ''nodeCommandValue'' \<or>
      ''nodeCommand'' = ''nodeCommandValueUnit'') \<and>
      handler_switch isy_int example_server ?r ''nodeCommand'' ?vars = Some ?rq"
    by (simp add: handler_switch_def Vars_get_def parseAddr_def HasPrefix_def slice_from_def
        example_server_def)
  from C h9 have g8: "Params ?rq = makeCommandParams isy_int ?r" by blast
  from g1 g2 g3 g4 g5 g6 res g7 g8 show ?thesis by blast
qed

text \<open>
  Claim C1 as stated fails. The key \<open>a.uomb.uom5\<close> has the form \<open><name>.uom<digits>\<close> with
  the name \<open>a.uomb\<close> and the digits \<open>5\<close>, yet no parameter named \<open>a.uomb\<close> is decoded: the
  key is split at its first \<open>.uom\<close>, the rest \<open>b.uom5\<close> is not a number, and the parameter
  is named by the whole key with the unknown unit.
\<close>

theorem C1_uom_in_name_counterexample:
  "''a.uomb.uom5'' = ''a.uomb'' @ ''.uom'' @ ''5'' \<and> list_all isDigit ''5'' \<and>
   Params_lookup
     (makeCommandParams isy_int
        \<lparr>BasicAuth = None, URL_Path = [], URL_Query = ParseQuery ''a.uomb.uom5=1''\<rparr>)
     ''a.uomb'' = None \<and>
   Params_lookup
     (makeCommandParams isy_int
        \<lparr>BasicAuth = None, URL_Path = [], URL_Query = ParseQuery ''a.uomb.uom5=1''\<rparr>)
     ''a.uomb.uom5'' = Some \<lparr>Value = ''1'', UOM = UOMUnknown isy_int\<rparr>"
proof -
  have q: "ParseQuery ''a.uomb.uom5=1'' = [(''a.uomb.uom5'', [''1''])]"
    by (simp add: ParseQuery_def Values_append_def)
  have n: "name_uom isy_int ''a.uomb.uom5'' = (''a.uomb.uom5'', UOMUnknown isy_int)"
    by (simp add: name_uom_def HasPrefix_def slice_def slice_from_def Atoi_def isDigit_def)
  show ?thesis
    by (simp add: q n makeCommandParams_def Params_lookup_def isDigit_def)
qed

text \<open>
  Claim C10. Every decoded parameter carries the first value of a key that decodes to its
  name, whatever further values the key has. The result is a map, so a name has at most
  one parameter: for every key other than \<open>requestId\<close> that has a value, the map holds
  under the key's name the parameter of exactly one key that decodes to that name. With
  \<open>level=1\<close> and \<open>level.uom2=50\<close> together, the one parameter \<open>level\<close> that is delivered
  is that of the key visited last.
\<close>

theorem C10_first_value_one_per_name:
  "(Params_lookup (makeCommandParams isy r) n = Some p \<longrightarrow>
      (\<exists>k v vs. (k, v # vs) \<in> set (URL_Query r) \<and> k \<noteq> ''requestId'' \<and>
         name_uom isy k = (n, UOM p) \<and> Value p = v)) \<and>
   ((k, v # vs) \<in> set (URL_Query r) \<and> k \<noteq> ''requestId'' \<longrightarrow>
      (\<exists>k' v' vs'. (k', v' # vs') \<in> set (URL_Query r) \<and> k' \<noteq> ''requestId'' \<and>
         fst (name_uom isy k') = fst (name_uom isy k) \<and>
         Params_lookup (makeCommandParams isy r) (fst (name_uom isy k)) =
           Some \<lparr>Value = v', UOM = snd (name_uom isy k')\<rparr>)) \<and>
   (URL_Query r = [(''level'', [''1'', ''9'']), (''level.uom2'', [''50'', ''60''])] \<longrightarrow>
      makeCommandParams isy r =
        Some [''level'' \<mapsto> \<lparr>Value = ''50'', UOM = UOM_conv isy 2\<rparr>]) \<and>
   (URL_Query r = [(''level.uom2'', [''50'', ''60'']), (''level'', [''1'', ''9''])] \<longrightarrow>
      makeCommandParams isy r =
        Some [''level'' \<mapsto> \<lparr>Value = ''1'', UOM = UOMUnknown isy\<rparr>])"
proof (intro conjI impI)
  assume "Params_lookup (makeCommandParams isy r) n = Some p"
  then have "Params_lookup (makeCommandParams_loop isy (URL_Query r) None) n = Some p"
    by (simp add: makeCommandParams_def)
  from makeCommandParams_loop_sound [OF this]
  show "\<exists>k v vs. (k, v # vs) \<in> set (URL_Query r) \<and> k \<noteq> ''requestId'' \<and>
         name_uom isy k = (n, UOM p) \<and> Value p = v" by simp
next
  assume "(k, v # vs) \<in> set (URL_Query r) \<and> k \<noteq> ''requestId''"
  then have "(k, v # vs) \<in> set (URL_Query r)" "k \<noteq> ''requestId''" by simp_all
  from makeCommandParams_survivor [OF this, of isy]
  show "\<exists>k' v' vs'. (k', v' # vs') \<in> set (URL_Query r) \<and> k' \<noteq> ''requestId'' \<and>
         fst (name_uom isy k') = fst (name_uom isy k) \<and>
         Params_lookup (makeCommandParams isy r) (fst (name_uom isy k)) =
           Some \<lparr>Value = v', UOM = snd (name_uom isy k')\<rparr>"
    by (simp add: makeCommandParams_def)
next
  assume "URL_Query r = [(''level'', [''1'', ''9'']), (''level.uom2'', [''50'', ''60''])]"
  then show "makeCommandParams isy r =
        Some [''level'' \<mapsto> \<lparr>Value = ''50'', UOM = UOM_conv isy 2\<rparr>]"
    by (simp add: makeCommandParams_def name_uom_level name_uom_plain_level)
next
  assume "URL_Query r = [(''level.uom2'', [''50'', ''60'']), (''level'', [''1'', ''9''])]"
  then show "makeCommandParams isy r =
        Some [''level'' \<mapsto> \<lparr>Value = ''1'', UOM = UOMUnknown isy\<rparr>]"
    by (simp add: makeCommandParams_def name_uom_level name_uom_plain_level)
qed

text \<open>The statement of C10 at the two keys \<open>level\<close> and \<open>level.uom2\<close>, in both orders.\<close>

theorem C10_first_value_one_per_name_witness:
  "(\<exists>k v vs. (k, v # vs) \<in> {(''level'', [''1'', ''9'']), (''level.uom2'', [''50'', ''60''])} \<and>
      k \<noteq> ''requestId'' \<and> name_uom isy_int k = (''level'', 2) \<and> v = ''50'') \<and>
   (\<exists>k' v' vs'. (k', v' # vs') \<in> {(''level'', [''1'', ''9'']), (''level.uom2'', [''50'', ''60''])} \<and>
      k' \<noteq> ''requestId'' \<and> fst (name_uom isy_int k') = ''level'' \<and>
      Params_lookup
        (makeCommandParams isy_int
           \<lparr>BasicAuth = None, URL_Path = [],
            URL_Query = [(''level'', [''1'', ''9'']), (''level.uom2'', [''50'', ''60''])]\<rparr>)
        ''level'' = Some \<lparr>Value = v', UOM = snd (name_uom isy_int k')\<rparr>) \<and>
   makeCommandParams isy_int
     \<lparr>BasicAuth = None, URL_Path = [],
      URL_Query = [(''level'', [''1'', ''9'']), (''level.uom2'', [''50'', ''60''])]\<rparr> =
     Some [''level'' \<mapsto> \<lparr>Value = ''50'', UOM = UOM_conv isy_int 2\<rparr>] \<and>
   makeCommandParams isy_int
     \<lparr>BasicAuth = None, URL_Path = [],
      URL_Query = [(''level.uom2'', [''50'', ''60'']), (''level'', [''1'', ''9''])]\<rparr> =
     Some [''level'' \<mapsto> \<lparr>Value = ''1'', UOM = UOMUnknown isy_int\<rparr>]"
proof -
  let ?q1 = "[(''level'', [''1'', ''9'']), (''level.uom2'', [''50'', ''60''])]"
  let ?q2 = "[(''level.uom2'', [''50'', ''60'']), (''level'', [''1'', ''9''])]"
  let ?r1 = "\<lparr>BasicAuth = None, URL_Path = [], URL_Query = ?q1\<rparr>"
  let ?r2 = "\<lparr>BasicAuth = None, URL_Path = [], URL_Query = ?q2\<rparr>"
  note A = C10_first_value_one_per_name [where isy = isy_int and r = ?r1
      and n = "''level''" and p = "\<lparr>Value = ''50'', UOM = 2\<rparr>"
      and k = "''level''" and v = "''1''" and vs = "[''9'']"]
  note B = C10_first_value_one_per_name [where isy = isy_int and r = ?r2]
  have q1: "URL_Query ?r1 = ?q1" and q2: "URL_Query ?r2 = ?q2" by simp_all
  from A q1 have res1: "makeCommandParams isy_int ?r1 =
      Some [''level'' \<mapsto> \<lparr>Value = ''50'', UOM = UOM_conv isy_int 2\<rparr>]" by blast
  from B q2 have res2: "makeCommandParams isy_int ?r2 =
      Some [''level'' \<mapsto> \<lparr>Value = ''1'', UOM = UOMUnknown isy_int\<rparr>]" by blast
  have h1: "Params_lookup (makeCommandParams isy_int ?r1) ''level'' =
      Some \<lparr>Value = ''50'', UOM = 2\<rparr>"
    using res1 by (simp add: Params_lookup_def isy_int_def)
  from A h1 have "\<exists>k v vs. (k, v # vs) \<in> set (URL_Query ?r1) \<and> k \<noteq> ''requestId'' \<and>
      name_uom isy_int k = (''level'', UOM \<lparr>Value = ''50'', UOM = 2::int\<rparr>) \<and>
      Value \<lparr>Value = ''50'', UOM = 2::int\<rparr> = v" by blast
  then have g1: "\<exists>k v vs. (k, v # vs) \<in> {(''level'', [''1'', ''9'']), (''level.uom2'', [''50'', ''60''])} \<and>
      k \<noteq> ''requestId'' \<and> name_uom isy_int k = (''level'', 2) \<and> v = ''50''" by auto
  have h2: "(''level'', ''1'' # [''9'']) \<in> set (URL_Query ?r1) \<and> ''level'' \<noteq> ''requestId''"
    by simp
  from A h2 have "\<exists>k' v' vs'. (k', v' # vs') \<in> set (URL_Query ?r1) \<and> k' \<noteq> ''requestId'' \<and>
         fst (name_uom isy_int k') = fst (name_uom isy_int ''level'') \<and>
         Params_lookup (makeCommandParams isy_int ?r1) (fst (name_uom isy_int ''level'')) =
           Some \<lparr>Value = v', UOM = snd (name_uom isy_int k')\<rparr>" by blast
  then have g2: "\<exists>k' v' vs'. (k', v' # vs') \<in> {(''level'', [''1'', ''9'']), (''level.uom2'', [''50'', ''60''])} \<and>
      k' \<noteq> ''requestId'' \<and> fst (name_uom isy_int k') = ''level'' \<and>
      Params_lookup (makeCommandParams isy_int ?r1) ''level'' =
        Some \<lparr>Value = v', UOM = snd (name_uom isy_int k')\<rparr>"
    by (simp add: name_uom_plain_level)
  from g1 g2 res1 res2 show ?thesis by blast
qed

subsection \<open>The handler: credentials, routes and the switch\<close>

lemma ConstantTimeCompare_iff: "ConstantTimeCompare x y = 1 \<longleftrightarrow> x = y"
  by (auto simp: ConstantTimeCompare_def)

lemma handler_unauthorized:
  assumes "BasicAuth r = None \<or>
    (\<exists>u p. BasicAuth r = Some (u, p) \<and> (u \<noteq> username s \<or> sha256sum p \<noteq> passwordSHA256 s))"
  shows "handler sha256sum isy s r = [http_Error ''Unauthorized'' 401]"
  using assms by (auto simp: handler_def ConstantTimeCompare_iff)

lemma handler_authorized:
  assumes "BasicAuth r = Some (u, p)" "u = username s" "sha256sum p = passwordSHA256 s"
  shows "handler sha256sum isy s r =
    (case router_Match router (URL_Path r) of
       None \<Rightarrow> [http_Error ''Not Found'' 404]
     | Some (nm, vars) \<Rightarrow>
         (case handler_switch isy s r nm vars of
            None \<Rightarrow> [http_Error ''Not Found'' 404]
          | Some rq \<Rightarrow> [WriteHeader 204, chan_send (rawReqs s) rq]))"
  using assms by (simp add: handler_def ConstantTimeCompare_iff)

lemma handler_shape:
  "handler sha256sum isy s r = [http_Error ''Unauthorized'' 401] \<or>
   handler sha256sum isy s r = [http_Error ''Not Found'' 404] \<or>
   (\<exists>rq. handler sha256sum isy s r = [WriteHeader 204, chan_send (rawReqs s) rq])"
  by (auto simp: handler_def split: option.splits)

lemma unit_template:
  "map tpl_seg (split_on CHR ''/'' ''/ns/nodes/{nodeAddr}/cmd/{command}/{value}/{unit}'') =
     [Lit [], Lit ''ns'', Lit ''nodes'', Var ''nodeAddr'', Lit ''cmd'', Var ''command'',
      Var ''value'', Var ''unit'']"
  by (simp add: tpl_seg_def)

lemma match_segs_length:
  "match_segs ts ps = Some vars \<Longrightarrow> length ps = length ts"
  by (induction ts ps arbitrary: vars rule: match_segs.induct) (auto split: if_splits)

lemma match_unit_template:
  assumes "match_segs [Lit [], Lit ''ns'', Lit ''nodes'', Var ''nodeAddr'', Lit ''cmd'',
      Var ''command'', Var ''value'', Var ''unit''] ps = Some vars"
  shows "\<exists>a c v u. ps = [[], ''ns'', ''nodes'', a, ''cmd'', c, v, u] \<and>
     a \<noteq> [] \<and> c \<noteq> [] \<and> v \<noteq> [] \<and> u \<noteq> [] \<and>
     vars = [(''nodeAddr'', a), (''command'', c), (''value'', v), (''unit'', u)]"
proof -
  from assms have "length ps = 8" by (auto dest: match_segs_length)
  then obtain p0 p1 p2 p3 p4 p5 p6 p7 where
    ps: "ps = [p0, p1, p2, p3, p4, p5, p6, p7]"
    by (auto simp: eval_nat_numeral length_Suc_conv)
  with assms show ?thesis by (auto split: if_splits)
qed

lemma router_unit_route:
  assumes "route_Match ''/ns/nodes/{nodeAddr}/cmd/{command}/{value}/{unit}'' path = Some vars"
  shows "router_Match router path = Some (''nodeCommandValueUnit'', vars) \<and>
    (\<exists>a c v u. vars = [(''nodeAddr'', a), (''command'', c), (''value'', v), (''unit'', u)])"
proof -
  from assms have "match_segs [Lit [], Lit ''ns'', Lit ''nodes'', Var ''nodeAddr'', Lit ''cmd'',
      Var ''command'', Var ''value'', Var ''unit''] (split_on CHR ''/'' path) = Some vars"
    unfolding route_Match_def unit_template .
  from match_unit_template [OF this] obtain a c v u where
    ps: "split_on CHR ''/'' path = [[], ''ns'', ''nodes'', a, ''cmd'', c, v, u]"
    and ne: "a \<noteq> []" "c \<noteq> []" "v \<noteq> []" "u \<noteq> []"
    and vars: "vars = [(''nodeAddr'', a), (''command'', c), (''value'', v), (''unit'', u)]"
    by blast
  have "router_Match router path = Some (''nodeCommandValueUnit'', vars)"
    by (simp add: router_def route_Match_def tpl_seg_def ps ne vars)
  with vars show ?thesis by blast
qed

lemma router_Match_name:
  "router_Match routes path = Some (nm, vars) \<Longrightarrow> nm \<in> snd ` set routes"
  by (induction routes path rule: router_Match.induct) (auto split: option.splits)

lemma handler_switch_decodes:
  assumes "nm \<in> snd ` set router"
    and "nm = ''nodeCommandValueUnit'' \<longrightarrow> Atoi (Vars_get vars ''unit'') \<noteq> None"
  shows "\<exists>rq. handler_switch isy s r nm vars = Some rq"
proof -
  from assms(1) have "nm = ''install'' \<or> nm = ''nodeQuery'' \<or> nm = ''nodeStatus'' \<or>
    nm = ''addAllNodes'' \<or> nm = ''addNode'' \<or> nm = ''removeNode'' \<or> nm = ''renameNode'' \<or>
    nm = ''enableNode'' \<or> nm = ''disableNode'' \<or> nm = ''nodeCommand'' \<or>
    nm = ''nodeCommandValue'' \<or> nm = ''nodeCommandValueUnit''"
    by (simp add: router_def)
  then show ?thesis
    using assms(2) by (elim disjE) (auto simp: handler_switch_def)
qed


lemma NewServer_fields:
  assumes "NewServer sha256sum parses config profileNum isyConfig = Inr s"
  shows "rawReqs s = make_chan 0" "username s = Config.Username config"
    "passwordSHA256 s = sha256sum (Config.Password config)"
    "addrPrefix s = ''n'' @ Sprintf_03d profileNum @ ''_''"
    "AddrPrefix (client s) = addrPrefix s"
  using assms by (auto simp: NewServer_def Let_def split: if_splits)

lemma Sprintf_03d_1: "Sprintf_03d 1 = ''001''"
  by code_simp

lemma Itoa_1: "Itoa 1 = ''1''"
  by code_simp

lemma relPath_1: "path_Join [''rest'', ''ns'', ''1''] = ''rest/ns/1''"
  by code_simp

lemma NewServer_example:
  "NewServer rev (\<lambda>u. True)
     \<lparr>ListenAddr = '':8443'', Config.Username = ''isy'', Config.Password = ''secret''\<rparr> 1
     \<lparr>ClientConfig.BaseURL = ''http://isy.example/'', ClientConfig.Username = ''admin'',
      ClientConfig.Password = ''admin''\<rparr> = Inr example_server"
  by (simp add: NewServer_def example_server_def Sprintf_03d_1 Itoa_1 relPath_1 Let_def)


lemma router_example_abc:
  "router_Match router ''/ns/nodes/n001_AA/cmd/DON/100/abc'' =
     Some (''nodeCommandValueUnit'',
       [(''nodeAddr'', ''n001_AA''), (''command'', ''DON''), (''value'', ''100''),
        (''unit'', ''abc'')])"
  by (simp add: router_def route_Match_def tpl_seg_def)

lemma router_example_no_ns:
  "router_Match router ''/nodes/n001_AA/cmd/DON/100/51'' = None"
  "router_Match router ''/nodes/n001_AA/cmd/DON/100/abc'' = None"
  by (simp_all add: router_def route_Match_def tpl_seg_def)


lemma Atoi_abc: "Atoi ''abc'' = None"
  by (simp add: Atoi_def isDigit_def)

lemma example_call_fields:
  "BasicAuth (example_call path) = Some (''isy'', ''secret'')"
  "URL_Path (example_call path) = path"
  by (simp_all add: example_call_def)

lemma example_server_fields:
  "username example_server = ''isy''" "passwordSHA256 example_server = ''terces''"
  "addrPrefix example_server = ''n001_''" "rawReqs example_server = make_chan 0"
  by (simp_all add: example_server_def)

lemma example_call_decoded:
  "makeCommandParams isy (example_call path) =
      Some [''level'' \<mapsto> \<lparr>Value = ''50'', UOM = UOM_conv isy 2\<rparr>,
            ''mode'' \<mapsto> \<lparr>Value = ''auto'', UOM = UOMUnknown isy\<rparr>]"
  "makeCommonReq s (example_call path) = \<lparr>id' = ''r1'', server = s\<rparr>"
proof -
  have wf: "wf_Values (URL_Query (example_call path))"
    by (simp add: example_call_query wf_Values_def)
  have q: "set (URL_Query (example_call path)) =
      set (ParseQuery ''level.uom2=50&mode=auto&requestId=r1'')"
    by (simp add: example_call_def)
  from query_example [OF wf q, of isy s]
  show "makeCommandParams isy (example_call path) =
      Some [''level'' \<mapsto> \<lparr>Value = ''50'', UOM = UOM_conv isy 2\<rparr>,
            ''mode'' \<mapsto> \<lparr>Value = ''auto'', UOM = UOMUnknown isy\<rparr>]" by blast
  from query_example [OF wf q, of isy s]
  have "id' (makeCommonReq s (example_call path)) = ''r1''" by blast
  then show "makeCommonReq s (example_call path) = \<lparr>id' = ''r1'', server = s\<rparr>"
    by (simp add: makeCommonReq_def)
qed

lemma handler_unit_not_int:
  assumes m: "route_Match ''/ns/nodes/{nodeAddr}/cmd/{command}/{value}/{unit}'' (URL_Path r) =
      Some vars"
    and u: "Atoi (Vars_get vars ''unit'') = None"
  shows "handler sha256sum isy s r = [http_Error ''Unauthorized'' 401] \<or>
     handler sha256sum isy s r = [http_Error ''Not Found'' 404]"
    and "BasicAuth r = Some (username s, p) \<Longrightarrow> sha256sum p = passwordSHA256 s \<Longrightarrow>
     handler sha256sum isy s r = [http_Error ''Not Found'' 404]"
proof -
  have rm: "router_Match router (URL_Path r) = Some (''nodeCommandValueUnit'', vars)"
    using router_unit_route [OF m] by (rule conjunct1)
  have sw: "handler_switch isy s r ''nodeCommandValueUnit'' vars = None"
    using u by (simp add: handler_switch_def)
  show "handler sha256sum isy s r = [http_Error ''Unauthorized'' 401] \<or>
     handler sha256sum isy s r = [http_Error ''Not Found'' 404]"
  proof (cases "BasicAuth r = None \<or>
    (\<exists>u p. BasicAuth r = Some (u, p) \<and> (u \<noteq> username s \<or> sha256sum p \<noteq> passwordSHA256 s))")
    case True
    then have "handler sha256sum isy s r = [http_Error ''Unauthorized'' 401]"
      by (rule handler_unauthorized)
    then show ?thesis by simp
  next
    case False
    then have "\<exists>p. BasicAuth r = Some (username s, p) \<and> sha256sum p = passwordSHA256 s"
      by (cases "BasicAuth r") auto
    then obtain p where p: "BasicAuth r = Some (username s, p)" "sha256sum p = passwordSHA256 s"
      by (elim exE conjE)
    have "handler sha256sum isy s r =
      (case router_Match router (URL_Path r) of
         None \<Rightarrow> [http_Error ''Not Found'' 404]
       | Some (nm, vars) \<Rightarrow>
           (case handler_switch isy s r nm vars of
              None \<Rightarrow> [http_Error ''Not Found'' 404]
            | Some rq \<Rightarrow> [WriteHeader 204, chan_send (rawReqs s) rq]))"
      using p(1) refl p(2) by (rule handler_authorized)
    then have "handler sha256sum isy s r = [http_Error ''Not Found'' 404]"
      by (simp add: rm sw)
    then show ?thesis by simp
  qed
  show "handler sha256sum isy s r = [http_Error ''Not Found'' 404]"
    if "BasicAuth r = Some (username s, p)" "sha256sum p = passwordSHA256 s"
  proof -
    have "handler sha256sum isy s r =
      (case router_Match router (URL_Path r) of
         None \<Rightarrow> [http_Error ''Not Found'' 404]
       | Some (nm, vars) \<Rightarrow>
           (case handler_switch isy s r nm vars of
              None \<Rightarrow> [http_Error ''Not Found'' 404]
            | Some rq \<Rightarrow> [WriteHeader 204, chan_send (rawReqs s) rq]))"
      using that(1) refl that(2) by (rule handler_authorized)
    then show ?thesis by (simp add: rm sw)
  qed
qed

lemma route_example_abc:
  "route_Match ''/ns/nodes/{nodeAddr}/cmd/{command}/{value}/{unit}''
     ''/ns/nodes/n001_AA/cmd/DON/100/abc'' =
     Some [(''nodeAddr'', ''n001_AA''), (''command'', ''DON''), (''value'', ''100''),
           (''unit'', ''abc'')]"
  by (simp add: route_Match_def tpl_seg_def)

lemma router_example_query:
  "router_Match router ''/ns/nodes/n001_AA/query'' =
     Some (''nodeQuery'', [(''nodeAddr'', ''n001_AA'')])"
  by (simp add: router_def route_Match_def tpl_seg_def)

subsection \<open>The outbound client: outcomes, escaping and joining\<close>

text \<open>
  What \<open>nsClient.Request\<close> can do: it returns nil, returns an error, or panics when the
  transport gives no response; it hands at most one request to the transport, so nothing
  is retried. A status of 400 or more is returned as an error. Without the log line the
  function always returns.
\<close>

lemma Request_transport_failure:
  "NewRequest_err t (ResolveReference (nsClient.BaseURL c) url) = None \<Longrightarrow>
   Do t \<lparr>Method = ''GET'', Target = ResolveReference (nsClient.BaseURL c) url,
          Auth = (nsClient.Username c, nsClient.Password c)\<rparr> = Do_err None err \<Longrightarrow>
   fst (Request t c url) = Panic ''nil pointer dereference''"
  by (simp add: Request_def Let_def)

lemma Request_returns_error:
  "fst (Request t c url) = Return None \<or> (\<exists>e. fst (Request t c url) = Return (Some e)) \<or>
   fst (Request t c url) = Panic ''nil pointer dereference''"
  by (auto simp: Request_def Let_def split: option.splits Do_result.splits)

lemma Request_unlogged_total:
  "\<exists>e. fst (Request_unlogged t c url) = Return e"
  by (auto simp: Request_unlogged_def Let_def split: option.splits Do_result.splits)

lemma Request_calls:
  "length (snd (Request t c url)) \<le> 1"
  by (auto simp: Request_def Let_def split: option.splits Do_result.splits)

lemma MakeURL_status_ok:
  "MakeURL c [''report'', ''status'', ''r1'', ''success''] =
     ResolveReference (nsClient.BaseURL c) (url_Parse ''report/status/r1/success'')"
  by (simp add: MakeURL_def PathEscape_def shouldEscape_def path_Join_def Clean_def Let_def)

lemma MakeURL_status_empty:
  "MakeURL c [''report'', ''status'', [], ''success''] =
     ResolveReference (nsClient.BaseURL c) (url_Parse ''report/status/success'')"
  by (simp add: MakeURL_def PathEscape_def shouldEscape_def path_Join_def Clean_def Let_def)


lemma PathEscape_simps:
  "PathEscape [] = []"
  "PathEscape (c # cs) =
     (if shouldEscape c
      then [CHR ''%'', upperhex (of_char c div 16), upperhex (of_char c mod 16)]
      else [c]) @ PathEscape cs"
  by (simp_all add: PathEscape_def)

lemma shouldEscape_dot: "\<not> shouldEscape CHR ''.''"
  by (simp add: shouldEscape_def)

lemma shouldEscape_slash: "shouldEscape CHR ''/''"
  by (simp add: shouldEscape_def)

lemma upperhex_not_slash: "upperhex n \<noteq> CHR ''/''"
proof -
  have "n mod 16 < length ''0123456789ABCDEF''" by simp
  then have "''0123456789ABCDEF'' ! (n mod 16) \<in> set ''0123456789ABCDEF''"
    by (rule nth_mem)
  then show ?thesis unfolding upperhex_def by auto
qed

lemma PathEscape_no_slash: "CHR ''/'' \<notin> set (PathEscape s)"
proof (induction s)
  case Nil
  show ?case by (simp add: PathEscape_simps)
next
  case (Cons c s)
  show ?case
  proof (cases "shouldEscape c")
    case True
    with Cons show ?thesis
      using upperhex_not_slash [of "of_char c div 16"] upperhex_not_slash [of "of_char c mod 16"]
      by (simp add: PathEscape_simps)
  next
    case False
    then have "c \<noteq> CHR ''/''" using shouldEscape_slash by auto
    with False Cons show ?thesis by (simp add: PathEscape_simps)
  qed
qed

lemma PathEscape_empty: "PathEscape s = [] \<longleftrightarrow> s = []"
  by (cases s) (simp_all add: PathEscape_simps)

lemma PathEscape_dot: "PathEscape s = ''.'' \<longleftrightarrow> s = ''.''"
proof (cases s)
  case Nil
  then show ?thesis by (simp add: PathEscape_simps)
next
  case (Cons c cs)
  show ?thesis
  proof (cases "shouldEscape c")
    case True
    with Cons shouldEscape_dot show ?thesis by (auto simp: PathEscape_simps)
  next
    case False
    with Cons show ?thesis by (auto simp: PathEscape_simps PathEscape_empty)
  qed
qed

lemma PathEscape_dotdot: "PathEscape s = ''..'' \<longleftrightarrow> s = ''..''"
proof (cases s)
  case Nil
  then show ?thesis by (simp add: PathEscape_simps)
next
  case (Cons c cs)
  show ?thesis
  proof (cases "shouldEscape c")
    case True
    with Cons shouldEscape_dot show ?thesis by (auto simp: PathEscape_simps)
  next
    case False
    with Cons show ?thesis by (auto simp: PathEscape_simps PathEscape_dot)
  qed
qed

lemma split_on_not_Nil: "split_on c s \<noteq> []"
  by (induction s) (auto split: list.splits)

lemma split_on_no_sep: "c \<notin> set e \<Longrightarrow> split_on c e = [e]"
  by (induction e) auto

lemma split_on_append: "c \<notin> set a \<Longrightarrow> split_on c (a @ c # b) = a # split_on c b"
  by (induction a) auto

lemma path_Join_report:
  assumes "e \<noteq> []" "e \<noteq> ''.''" "e \<noteq> ''..''" "CHR ''/'' \<notin> set e"
    and "w = ''success'' \<or> w = ''fail''"
  shows "path_Join [''report'', ''status'', e, w] = ''report/status/'' @ e @ ''/'' @ w"
proof -
  have w: "CHR ''/'' \<notin> set w" "w \<noteq> []" "w \<noteq> ''.''" "w \<noteq> ''..''"
    using assms(5) by auto
  have j: "join_with ''/'' [''report'', ''status'', e, w] = ''report/status/'' @ e @ ''/'' @ w"
    by simp
  have s3: "split_on CHR ''/'' (e @ CHR ''/'' # w) = [e, w]"
    using assms(4) w(1) by (simp add: split_on_append split_on_no_sep)
  have s2: "split_on CHR ''/'' (''status'' @ CHR ''/'' # e @ CHR ''/'' # w) =
      ''status'' # split_on CHR ''/'' (e @ CHR ''/'' # w)"
    by (rule split_on_append) simp
  have s1: "split_on CHR ''/'' (''report'' @ CHR ''/'' # ''status'' @ CHR ''/'' # e @ CHR ''/'' # w) =
      ''report'' # split_on CHR ''/'' (''status'' @ CHR ''/'' # e @ CHR ''/'' # w)"
    by (rule split_on_append) simp
  have sp: "split_on CHR ''/'' (''report/status/'' @ e @ ''/'' @ w) =
      [''report'', ''status'', e, w]"
    using s1 s2 s3 by simp
  have cl: "clean_elems False [''report'', ''status'', e, w] [] = [''report'', ''status'', e, w]"
    by (simp add: assms(1-3) w(2-4))
  have h: "(hd (''report/status/'' @ e @ ''/'' @ w) = CHR ''/'') = False" by simp
  have "Clean (''report/status/'' @ e @ ''/'' @ w) = ''report/status/'' @ e @ ''/'' @ w"
    unfolding Clean_def Let_def sp h cl by simp
  then show ?thesis by (simp add: path_Join_def j del: join_with.simps)
qed

lemma MakeURL_report:
  assumes "rid \<noteq> []" "rid \<noteq> ''.''" "rid \<noteq> ''..''" "w = ''success'' \<or> w = ''fail''"
  shows "MakeURL c [''report'', ''status'', rid, w] =
    ResolveReference (nsClient.BaseURL c)
      (url_Parse (''report/status/'' @ PathEscape rid @ ''/'' @ w))"
proof -
  have e: "PathEscape ''report'' = ''report''" "PathEscape ''status'' = ''status''"
    by (simp_all add: PathEscape_def shouldEscape_def)
  have w: "PathEscape w = w"
    using assms(4) by (auto simp: PathEscape_def shouldEscape_def)
  have "path_Join [''report'', ''status'', PathEscape rid, w] =
      ''report/status/'' @ PathEscape rid @ ''/'' @ w"
    using assms by (intro path_Join_report)
      (simp_all add: PathEscape_empty PathEscape_dot PathEscape_dotdot PathEscape_no_slash)
  then show ?thesis by (simp add: MakeURL_def Let_def e w)
qed

lemma MakeURL_report_empty:
  assumes "w = ''success'' \<or> w = ''fail''"
  shows "MakeURL c [''report'', ''status'', [], w] =
    ResolveReference (nsClient.BaseURL c) (url_Parse (''report/status/'' @ w))"
  using assms
  by (auto simp: MakeURL_def PathEscape_def shouldEscape_def path_Join_def Clean_def Let_def)

lemma Request_one_call:
  assumes "NewRequest_err t (ResolveReference (nsClient.BaseURL c) url) = None"
  shows "snd (Request t c url) =
     [\<lparr>Method = ''GET'', Target = ResolveReference (nsClient.BaseURL c) url,
       Auth = (nsClient.Username c, nsClient.Password c)\<rparr>]"
  using assms by (simp add: Request_def Let_def split: Do_result.splits option.splits)

lemma example_client:
  "client example_server =
     \<lparr>BaseURL = ResolveReference (url_Parse ''http://isy.example/'') (url_Parse ''rest/ns/1/''),
      AddrPrefix = ''n001_'', Username = ''admin'', Password = ''admin''\<rparr>"
  by (simp add: example_server_def)

lemma PathEscape_r1: "PathEscape ''r1'' = ''r1''"
  by (simp add: PathEscape_def shouldEscape_def)

lemma Request_transport_ok:
  "Request transport_ok c url =
     (Return None,
      [\<lparr>Method = ''GET'', Target = ResolveReference (nsClient.BaseURL c) url,
        Auth = (nsClient.Username c, nsClient.Password c)\<rparr>])"
  by (simp add: Request_def transport_ok_def Let_def)

lemma Request_transport_refused:
  "Request transport_refused c url =
     (Panic ''nil pointer dereference'',
      [\<lparr>Method = ''GET'', Target = ResolveReference (nsClient.BaseURL c) url,
        Auth = (nsClient.Username c, nsClient.Password c)\<rparr>])"
  by (simp add: Request_def transport_refused_def Let_def)

lemma Request_status_error:
  assumes "NewRequest_err t (ResolveReference (nsClient.BaseURL c) url) = None"
    and "Do t \<lparr>Method = ''GET'', Target = ResolveReference (nsClient.BaseURL c) url,
          Auth = (nsClient.Username c, nsClient.Password c)\<rparr> = Do_ok resp"
    and "StatusCode resp \<ge> 400"
  shows "fst (Request t c url) = Return (Some (Status resp))"
  using assms by (simp add: Request_def Let_def)

subsection \<open>The stages of a handler goroutine\<close>

lemma events_of_append:
  "events_of i (\<sigma>\<lparr>pending := ps, trace := trace \<sigma> @ [e]\<rparr>) =
     events_of i \<sigma> @ (if who e = i then [e] else [])"
  by (simp add: events_of_def)

lemma events_of_pending:
  "events_of i (\<sigma>\<lparr>pending := ps, buffer := b\<rparr>) = events_of i \<sigma>"
  by (simp add: events_of_def)

lemma stage_other:
  assumes "handler_stage i h \<sigma>" "i \<noteq> j" "who e = j"
  shows "handler_stage i h (\<sigma>\<lparr>pending := (pending \<sigma>)[j := rest],
     trace := trace \<sigma> @ [e]\<rparr>)"
  using assms by (simp add: handler_stage_def events_of_append)

lemma step_preserves:
  assumes hs: "\<forall>i < length hs. handler_effects (make_chan 0) (hs ! i)"
    and inv: "length (pending \<sigma>) = length hs" "buffer \<sigma> = []"
      "\<forall>i < length hs. handler_stage i (hs ! i) \<sigma>"
    and st: "step \<sigma> \<sigma>'"
  shows "length (pending \<sigma>') = length hs \<and> buffer \<sigma>' = [] \<and>
     (\<forall>i < length hs. handler_stage i (hs ! i) \<sigma>')"
  using st
proof (cases rule: step.cases)
  case (respond_error j msg code rest)
  from respond_error(2) inv(1) have j: "j < length hs" by simp
  from inv(3) j have sj: "handler_stage j (hs ! j) \<sigma>" by simp
  from hs j have ej: "handler_effects (make_chan 0) (hs ! j)" by simp
  from sj respond_error(3) ej have h: "hs ! j = [http_Error msg code]" "rest = []"
    "events_of j \<sigma> = []"
    by (auto simp: handler_stage_def handler_effects_def)
  have "handler_stage i (hs ! i) \<sigma>'" if "i < length hs" for i
  proof (cases "i = j")
    case True
    with h j inv(1) show ?thesis
      unfolding respond_error(1) by (simp add: handler_stage_def events_of_append)
  next
    case False
    from inv(3) that have "handler_stage i (hs ! i) \<sigma>" by simp
    then show ?thesis unfolding respond_error(1) using False by (rule stage_other) simp
  qed
  then show ?thesis using inv(1,2) unfolding respond_error(1) by simp
next
  case (respond_header j code rest)
  from respond_header(2) inv(1) have j: "j < length hs" by simp
  from inv(3) j have sj: "handler_stage j (hs ! j) \<sigma>" by simp
  from hs j have ej: "handler_effects (make_chan 0) (hs ! j)" by simp
  from sj respond_header(3) ej obtain rq where
    h: "hs ! j = [WriteHeader 204, chan_send (make_chan 0) rq]" "code = 204"
    "rest = [chan_send (make_chan 0) rq]" "events_of j \<sigma> = []"
    by (auto simp: handler_stage_def handler_effects_def)
  have "handler_stage i (hs ! i) \<sigma>'" if "i < length hs" for i
  proof (cases "i = j")
    case True
    with h j inv(1) show ?thesis
      unfolding respond_header(1) by (simp add: handler_stage_def events_of_append)
  next
    case False
    from inv(3) that have "handler_stage i (hs ! i) \<sigma>" by simp
    then show ?thesis unfolding respond_header(1) using False by (rule stage_other) simp
  qed
  then show ?thesis using inv(1,2) unfolding respond_header(1) by simp
next
  case (send_rendezvous j rq rest c)
  from send_rendezvous(2) inv(1) have j: "j < length hs" by simp
  from inv(3) j have sj: "handler_stage j (hs ! j) \<sigma>" by simp
  from hs j have ej: "handler_effects (make_chan 0) (hs ! j)" by simp
  from sj send_rendezvous(3) ej have
    h: "hs ! j = [WriteHeader 204, chan_send (make_chan 0) rq]"
    "rest = []" "events_of j \<sigma> = [Responded j 204]"
    by (auto simp: handler_stage_def handler_effects_def)
  have "handler_stage i (hs ! i) \<sigma>'" if "i < length hs" for i
  proof (cases "i = j")
    case True
    with h j inv(1) show ?thesis
      unfolding send_rendezvous(1) by (simp add: handler_stage_def events_of_append)
  next
    case False
    from inv(3) that have "handler_stage i (hs ! i) \<sigma>" by simp
    then show ?thesis unfolding send_rendezvous(1) using False by (rule stage_other) simp
  qed
  then show ?thesis using inv(1,2) unfolding send_rendezvous(1) by simp
next
  case (send_buffered j cap rq rest)
  from send_buffered(2) inv(1) have j: "j < length hs" by simp
  from inv(3) j have sj: "handler_stage j (hs ! j) \<sigma>" by simp
  from hs j have ej: "handler_effects (make_chan 0) (hs ! j)" by simp
  from sj send_buffered(3) ej have "cap = 0"
    by (auto simp: handler_stage_def handler_effects_def)
  with send_buffered(4) show ?thesis by simp
next
  case (receive_buffered j rq b c)
  with inv(2) show ?thesis by simp
qed

lemma reachable_invariant:
  assumes hs: "\<forall>i < length hs. handler_effects (make_chan 0) (hs ! i)"
    and r: "rtranclp step (sys_init hs) \<sigma>"
  shows "length (pending \<sigma>) = length hs \<and> buffer \<sigma> = [] \<and>
     (\<forall>i < length hs. handler_stage i (hs ! i) \<sigma>)"
  using r
proof (induction rule: rtranclp_induct)
  case base
  show ?case by (simp add: sys_init_def handler_stage_def events_of_def)
next
  case (step \<sigma> \<sigma>')
  then show ?case using step_preserves [OF hs, of \<sigma> \<sigma>'] by blast
qed

lemma handler_has_effects: "handler_effects (rawReqs s) (handler sha256sum isy s r)"
  using handler_shape [of sha256sum isy s r] by (auto simp: handler_effects_def)

lemma handler_example_query:
  "handler rev isy_int example_server (example_call ''/ns/nodes/n001_AA/query'') =
     [WriteHeader 204,
      chan_send (make_chan 0)
        (NodeQueryRequest \<lparr>id' = ''r1'', server = example_server\<rparr> ''AA'')]"
proof -
  let ?r = "example_call ''/ns/nodes/n001_AA/query''"
  have au: "BasicAuth ?r = Some (''isy'', ''secret'')" "''isy'' = username example_server"
    "rev ''secret'' = passwordSHA256 example_server"
    by (simp_all add: example_call_fields example_server_fields)
  have "handler rev isy_int example_server ?r =
      (case router_Match router (URL_Path ?r) of
         None \<Rightarrow> [http_Error ''Not Found'' 404]
       | Some (nm, vars) \<Rightarrow>
           (case handler_switch isy_int example_server ?r nm vars of
              None \<Rightarrow> [http_Error ''Not Found'' 404]
            | Some rq \<Rightarrow> [WriteHeader 204, chan_send (rawReqs example_server) rq]))"
    using au by (rule handler_authorized)
  then show ?thesis
    by (simp add: example_call_fields router_example_query handler_switch_def Vars_get_def
        example_call_decoded example_server_fields parseAddr_def HasPrefix_def slice_from_def)
qed

lemma two_steps_unbuffered:
  "rtranclp step (sys_init [[WriteHeader 204, chan_send (make_chan 0) rq]])
     \<lparr>pending = [[chan_send (make_chan 0) rq]], buffer = [], trace = [Responded 0 204]\<rparr> \<and>
   rtranclp step (sys_init [[WriteHeader 204, chan_send (make_chan 0) rq]])
     \<lparr>pending = [[]], buffer = [], trace = [Responded 0 204, Received c 0 rq]\<rparr>"
proof -
  let ?s0 = "sys_init [[WriteHeader 204, chan_send (make_chan 0) rq]]"
  let ?s1 = "\<lparr>pending = [[chan_send (make_chan 0) rq]], buffer = [],
     trace = [Responded 0 204]\<rparr>"
  let ?s2 = "\<lparr>pending = [[]], buffer = [], trace = [Responded 0 204, Received c 0 rq]\<rparr>"
  have "step ?s0 (?s0\<lparr>pending := (pending ?s0)[0 := [chan_send (make_chan 0) rq]],
      trace := trace ?s0 @ [Responded 0 204]\<rparr>)"
    by (rule respond_header) (simp_all add: sys_init_def)
  then have a: "step ?s0 ?s1" by (simp add: sys_init_def)
  have "step ?s1 (?s1\<lparr>pending := (pending ?s1)[0 := []],
      trace := trace ?s1 @ [Received c 0 rq]\<rparr>)"
    by (rule send_rendezvous) simp_all
  then have b: "step ?s1 ?s2" by simp
  from a have "rtranclp step ?s0 ?s1" by (rule r_into_rtranclp)
  moreover from this b have "rtranclp step ?s0 ?s2" by (rule rtranclp.rtrancl_into_rtrancl)
  ultimately show ?thesis by (intro conjI)
qed

text \<open>
  With a channel of capacity 1 the same handler can return while its request waits in the
  buffer, received by nobody.
\<close>

lemma buffered_handler_returns_unreceived:
  "rtranclp step (sys_init [[WriteHeader 204, chan_send (make_chan 1) rq]])
     \<lparr>pending = [[]], buffer = [(0, rq)], trace = [Responded 0 204]\<rparr>"
proof -
  let ?s0 = "sys_init [[WriteHeader 204, chan_send (make_chan 1) rq]]"
  let ?s1 = "\<lparr>pending = [[chan_send (make_chan 1) rq]], buffer = [],
     trace = [Responded 0 204]\<rparr>"
  let ?s2 = "\<lparr>pending = [[]], buffer = [(0, rq)], trace = [Responded 0 204]\<rparr>"
  have "step ?s0 (?s0\<lparr>pending := (pending ?s0)[0 := [chan_send (make_chan 1) rq]],
      trace := trace ?s0 @ [Responded 0 204]\<rparr>)"
    by (rule respond_header) (simp_all add: sys_init_def)
  then have a: "step ?s0 ?s1" by (simp add: sys_init_def)
  have "step ?s1 (?s1\<lparr>pending := (pending ?s1)[0 := []],
      buffer := buffer ?s1 @ [(0, rq)]\<rparr>)"
    by (rule send_buffered [where cap = 1]) simp_all
  then have b: "step ?s1 ?s2" by simp
  from a have "rtranclp step ?s0 ?s1" by (rule r_into_rtranclp)
  from this b show ?thesis by (rule rtranclp.rtrancl_into_rtrancl)
qed

subsection \<open>Inbound calls\<close>




text \<open>
  Claim C5. A call that reaches the router and matches the template with the unit
  segment, the segment not being accepted by \<open>strconv.Atoi\<close>, is answered "not found";
  whatever its credentials are, nothing is sent on the channel. The path
  \<open>/nodes/n001_AA/cmd/DON/100/abc\<close> is answered "not found" (it matches no route), and so
  is \<open>/ns/nodes/n001_AA/cmd/DON/100/abc\<close> (its unit is not an integer).
\<close>

theorem C5_unit_not_integer_discarded:
  "(BasicAuth r = Some (username s, p) \<and> sha256sum p = passwordSHA256 s \<and>
    route_Match ''/ns/nodes/{nodeAddr}/cmd/{command}/{value}/{unit}'' (URL_Path r) = Some vars \<and>
    Atoi (Vars_get vars ''unit'') = None \<longrightarrow>
    handler sha256sum isy s r = [http_Error ''Not Found'' 404]) \<and>
   (route_Match ''/ns/nodes/{nodeAddr}/cmd/{command}/{value}/{unit}'' (URL_Path r) = Some vars \<and>
    Atoi (Vars_get vars ''unit'') = None \<longrightarrow>
    (\<forall>ch rq. chan_send ch rq \<notin> set (handler sha256sum isy s r))) \<and>
   (BasicAuth r = Some (username s, p) \<and> sha256sum p = passwordSHA256 s \<and>
    (URL_Path r = ''/nodes/n001_AA/cmd/DON/100/abc'' \<or>
     URL_Path r = ''/ns/nodes/n001_AA/cmd/DON/100/abc'') \<longrightarrow>
    handler sha256sum isy s r = [http_Error ''Not Found'' 404])"
proof (intro conjI impI)
  assume "BasicAuth r = Some (username s, p) \<and> sha256sum p = passwordSHA256 s \<and>
    route_Match ''/ns/nodes/{nodeAddr}/cmd/{command}/{value}/{unit}'' (URL_Path r) = Some vars \<and>
    Atoi (Vars_get vars ''unit'') = None"
  then show "handler sha256sum isy s r = [http_Error ''Not Found'' 404]"
    using handler_unit_not_int(2) by blast
next
  assume "route_Match ''/ns/nodes/{nodeAddr}/cmd/{command}/{value}/{unit}'' (URL_Path r) =
      Some vars \<and> Atoi (Vars_get vars ''unit'') = None"
  then have "handler sha256sum isy s r = [http_Error ''Unauthorized'' 401] \<or>
     handler sha256sum isy s r = [http_Error ''Not Found'' 404]"
    using handler_unit_not_int(1) by blast
  then show "\<forall>ch rq. chan_send ch rq \<notin> set (handler sha256sum isy s r)" by auto
next
  assume a: "BasicAuth r = Some (username s, p) \<and> sha256sum p = passwordSHA256 s \<and>
    (URL_Path r = ''/nodes/n001_AA/cmd/DON/100/abc'' \<or>
     URL_Path r = ''/ns/nodes/n001_AA/cmd/DON/100/abc'')"
  then have h: "handler sha256sum isy s r =
    (case router_Match router (URL_Path r) of
       None \<Rightarrow> [http_Error ''Not Found'' 404]
     | Some (nm, vars) \<Rightarrow>
         (case handler_switch isy s r nm vars of
            None \<Rightarrow> [http_Error ''Not Found'' 404]
          | Some rq \<Rightarrow> [WriteHeader 204, chan_send (rawReqs s) rq]))"
    using handler_authorized [of r "username s" p s sha256sum isy] by blast
  from a have "URL_Path r = ''/nodes/n001_AA/cmd/DON/100/abc'' \<or>
     URL_Path r = ''/ns/nodes/n001_AA/cmd/DON/100/abc''" by blast
  then show "handler sha256sum isy s r = [http_Error ''Not Found'' 404]"
  proof
    assume "URL_Path r = ''/nodes/n001_AA/cmd/DON/100/abc''"
    then show ?thesis by (simp add: h router_example_no_ns)
  next
    assume "URL_Path r = ''/ns/nodes/n001_AA/cmd/DON/100/abc''"
    then show ?thesis
      by (simp add: h router_example_abc handler_switch_def Vars_get_def Atoi_abc)
  qed
qed

text \<open>The statement of C5 at the example server, for both paths.\<close>

theorem C5_unit_not_integer_discarded_witness:
  "handler rev isy_int example_server (example_call ''/ns/nodes/n001_AA/cmd/DON/100/abc'') =
     [http_Error ''Not Found'' 404] \<and>
   (\<forall>ch rq. chan_send ch rq \<notin>
      set (handler rev isy_int example_server
             (example_call ''/ns/nodes/n001_AA/cmd/DON/100/abc''))) \<and>
   handler rev isy_int example_server (example_call ''/nodes/n001_AA/cmd/DON/100/abc'') =
     [http_Error ''Not Found'' 404]"
proof -
  let ?vars = "[(''nodeAddr'', ''n001_AA''), (''command'', ''DON''), (''value'', ''100''),
     (''unit'', ''abc'')]"
  let ?r = "example_call ''/ns/nodes/n001_AA/cmd/DON/100/abc''"
  let ?r' = "example_call ''/nodes/n001_AA/cmd/DON/100/abc''"
  note A = C5_unit_not_integer_discarded [where r = ?r and s = example_server
      and p = "''secret''" and sha256sum = rev and vars = ?vars and isy = isy_int]
  note B = C5_unit_not_integer_discarded [where r = ?r' and s = example_server
      and p = "''secret''" and sha256sum = rev and isy = isy_int]
  have auth: "BasicAuth ?r = Some (username example_server, ''secret'')"
    "BasicAuth ?r' = Some (username example_server, ''secret'')"
    "rev ''secret'' = passwordSHA256 example_server"
    by (simp_all add: example_call_fields example_server_fields)
  have m: "route_Match ''/ns/nodes/{nodeAddr}/cmd/{command}/{value}/{unit}'' (URL_Path ?r) =
      Some ?vars"
    by (simp only: example_call_fields route_example_abc)
  have u: "Atoi (Vars_get ?vars ''unit'') = None"
    by (simp add: Vars_get_def Atoi_abc)
  have path: "URL_Path ?r' = ''/nodes/n001_AA/cmd/DON/100/abc''"
    by (simp only: example_call_fields)
  have g1: "handler rev isy_int example_server ?r = [http_Error ''Not Found'' 404]"
    by (rule A [THEN conjunct1, THEN mp]) (intro conjI auth(1) auth(3) m u)
  have g2: "\<forall>ch rq. chan_send ch rq \<notin> set (handler rev isy_int example_server ?r)"
    by (rule A [THEN conjunct2, THEN conjunct1, THEN mp]) (intro conjI m u)
  have g3: "handler rev isy_int example_server ?r' = [http_Error ''Not Found'' 404]"
    by (rule B [THEN conjunct2, THEN conjunct2, THEN mp])
      (intro conjI disjI1 auth(2) auth(3) path)
  from g1 g2 g3 show ?thesis by (intro conjI)
qed

text \<open>
  Claim C9, as the code has it. A call without usable credentials, with another user name
  or with a password whose digest differs from the stored one is answered with the same
  "unauthorized" response, whatever its path is, and nothing is sent on the channel. A
  call with matching credentials whose path matches a route is acknowledged and exactly
  one request is sent on the channel, unless the route is the one with the unit segment
  and the segment is not an integer. The stored user name and digest are those of the
  configuration.
\<close>

theorem C9_credentials_guard:
  "(BasicAuth r = None \<or>
    (\<exists>u p. BasicAuth r = Some (u, p) \<and>
       (u \<noteq> username s \<or> sha256sum p \<noteq> passwordSHA256 s)) \<longrightarrow>
    handler sha256sum isy s r = [http_Error ''Unauthorized'' 401]) \<and>
   (BasicAuth r = Some (username s, p) \<and> sha256sum p = passwordSHA256 s \<and>
    router_Match router (URL_Path r) = Some (nm, vars) \<and>
    (nm = ''nodeCommandValueUnit'' \<longrightarrow> Atoi (Vars_get vars ''unit'') \<noteq> None) \<longrightarrow>
    (\<exists>rq. handler_switch isy s r nm vars = Some rq \<and>
       handler sha256sum isy s r = [WriteHeader 204, chan_send (rawReqs s) rq])) \<and>
   (NewServer sha256sum parses config profileNum isyConfig = Inr s \<longrightarrow>
    username s = Config.Username config \<and>
    passwordSHA256 s = sha256sum (Config.Password config))"
proof (intro conjI impI)
  assume "BasicAuth r = None \<or>
    (\<exists>u p. BasicAuth r = Some (u, p) \<and>
       (u \<noteq> username s \<or> sha256sum p \<noteq> passwordSHA256 s))"
  then show "handler sha256sum isy s r = [http_Error ''Unauthorized'' 401]"
    by (rule handler_unauthorized)
next
  assume a: "BasicAuth r = Some (username s, p) \<and> sha256sum p = passwordSHA256 s \<and>
    router_Match router (URL_Path r) = Some (nm, vars) \<and>
    (nm = ''nodeCommandValueUnit'' \<longrightarrow> Atoi (Vars_get vars ''unit'') \<noteq> None)"
  note au = a [THEN conjunct1] a [THEN conjunct2, THEN conjunct1]
    and rm = a [THEN conjunct2, THEN conjunct2, THEN conjunct1]
    and un = a [THEN conjunct2, THEN conjunct2, THEN conjunct2]
  have h: "handler sha256sum isy s r =
      (case router_Match router (URL_Path r) of
         None \<Rightarrow> [http_Error ''Not Found'' 404]
       | Some (nm, vars) \<Rightarrow>
           (case handler_switch isy s r nm vars of
              None \<Rightarrow> [http_Error ''Not Found'' 404]
            | Some rq \<Rightarrow> [WriteHeader 204, chan_send (rawReqs s) rq]))"
    using au(1) refl au(2) by (rule handler_authorized)
  from rm have "nm \<in> snd ` set router" by (rule router_Match_name)
  from handler_switch_decodes [OF this un, of isy s r]
  obtain rq where rq: "handler_switch isy s r nm vars = Some rq" by (elim exE)
  have "handler sha256sum isy s r = [WriteHeader 204, chan_send (rawReqs s) rq]"
    by (simp add: h rm rq)
  with rq show "\<exists>rq. handler_switch isy s r nm vars = Some rq \<and>
       handler sha256sum isy s r = [WriteHeader 204, chan_send (rawReqs s) rq]"
    by (intro exI conjI)
next
  assume n: "NewServer sha256sum parses config profileNum isyConfig = Inr s"
  from NewServer_fields(2) [OF n] show "username s = Config.Username config" .
  from NewServer_fields(3) [OF n]
  show "passwordSHA256 s = sha256sum (Config.Password config)" .
qed

text \<open>
  The statement of C9 at the example server: no credentials, another user, another
  password, and matching credentials on the route \<open>nodeQuery\<close>.
\<close>

theorem C9_credentials_guard_witness:
  "handler rev isy_int example_server
     \<lparr>BasicAuth = None, URL_Path = ''/ns/add/nodes'', URL_Query = []\<rparr> =
     [http_Error ''Unauthorized'' 401] \<and>
   handler rev isy_int example_server
     \<lparr>BasicAuth = Some (''mallory'', ''secret''), URL_Path = ''/ns/add/nodes'',
      URL_Query = []\<rparr> = [http_Error ''Unauthorized'' 401] \<and>
   handler rev isy_int example_server
     \<lparr>BasicAuth = Some (''isy'', ''guess''), URL_Path = ''/ns/add/nodes'',
      URL_Query = []\<rparr> = [http_Error ''Unauthorized'' 401] \<and>
   handler rev isy_int example_server (example_call ''/ns/nodes/n001_AA/query'') =
     [WriteHeader 204,
      chan_send (make_chan 0)
        (NodeQueryRequest \<lparr>id' = ''r1'', server = example_server\<rparr> ''AA'')] \<and>
   username example_server = ''isy'' \<and> passwordSHA256 example_server = rev ''secret''"
proof -
  let ?r0 = "\<lparr>BasicAuth = None, URL_Path = ''/ns/add/nodes'', URL_Query = []\<rparr>"
  let ?r1 = "\<lparr>BasicAuth = Some (''mallory'', ''secret''), URL_Path = ''/ns/add/nodes'',
      URL_Query = []\<rparr>"
  let ?r2 = "\<lparr>BasicAuth = Some (''isy'', ''guess''), URL_Path = ''/ns/add/nodes'',
      URL_Query = []\<rparr>"
  let ?r3 = "example_call ''/ns/nodes/n001_AA/query''"
  let ?cfg = "\<lparr>ListenAddr = '':8443'', Config.Username = ''isy'',
      Config.Password = ''secret''\<rparr>"
  let ?icfg = "\<lparr>ClientConfig.BaseURL = ''http://isy.example/'',
      ClientConfig.Username = ''admin'', ClientConfig.Password = ''admin''\<rparr>"
  note C = C9_credentials_guard [where sha256sum = rev and isy = isy_int
      and s = example_server]
  have h0: "BasicAuth ?r0 = None \<or>
    (\<exists>u p. BasicAuth ?r0 = Some (u, p) \<and>
       (u \<noteq> username example_server \<or> rev p \<noteq> passwordSHA256 example_server))"
    by simp
  have h1: "BasicAuth ?r1 = None \<or>
    (\<exists>u p. BasicAuth ?r1 = Some (u, p) \<and>
       (u \<noteq> username example_server \<or> rev p \<noteq> passwordSHA256 example_server))"
    by (simp add: example_server_fields)
  have h2: "BasicAuth ?r2 = None \<or>
    (\<exists>u p. BasicAuth ?r2 = Some (u, p) \<and>
       (u \<noteq> username example_server \<or> rev p \<noteq> passwordSHA256 example_server))"
    by (simp add: example_server_fields)
  have g0: "handler rev isy_int example_server ?r0 = [http_Error ''Unauthorized'' 401]"
    using h0 by (rule C [where r = ?r0, THEN conjunct1, THEN mp])
  have g1: "handler rev isy_int example_server ?r1 = [http_Error ''Unauthorized'' 401]"
    using h1 by (rule C [where r = ?r1, THEN conjunct1, THEN mp])
  have g2: "handler rev isy_int example_server ?r2 = [http_Error ''Unauthorized'' 401]"
    using h2 by (rule C [where r = ?r2, THEN conjunct1, THEN mp])
  have au: "BasicAuth ?r3 = Some (username example_server, ''secret'')"
    "rev ''secret'' = passwordSHA256 example_server"
    by (simp_all add: example_call_fields example_server_fields)
  have rm: "router_Match router (URL_Path ?r3) =
      Some (''nodeQuery'', [(''nodeAddr'', ''n001_AA'')])"
    by (simp only: example_call_fields router_example_query)
  have un: "''nodeQuery'' = ''nodeCommandValueUnit'' \<longrightarrow>
      Atoi (Vars_get [(''nodeAddr'', ''n001_AA'')] ''unit'') \<noteq> None"
    by simp
  have "\<exists>rq. handler_switch isy_int example_server ?r3 ''nodeQuery''
        [(''nodeAddr'', ''n001_AA'')] = Some rq \<and>
      handler rev isy_int example_server ?r3 =
        [WriteHeader 204, chan_send (rawReqs example_server) rq]"
    by (rule C [where r = ?r3 and p = "''secret''" and nm = "''nodeQuery''"
          and vars = "[(''nodeAddr'', ''n001_AA'')]", THEN conjunct2, THEN conjunct1, THEN mp])
      (intro conjI au rm un)
  then have g3: "handler rev isy_int example_server ?r3 =
     [WriteHeader 204,
      chan_send (make_chan 0)
        (NodeQueryRequest \<lparr>id' = ''r1'', server = example_server\<rparr> ''AA'')]"
    by (auto simp: handler_switch_def Vars_get_def example_call_decoded
        example_server_fields parseAddr_def HasPrefix_def slice_from_def)
  have "username example_server = Config.Username ?cfg \<and>
      passwordSHA256 example_server = rev (Config.Password ?cfg)"
    using NewServer_example
    by (rule C [where config = ?cfg and isyConfig = ?icfg and profileNum = 1
          and parses = "\<lambda>u. True", THEN conjunct2, THEN conjunct2, THEN mp])
  then have g4: "username example_server = ''isy''"
    "passwordSHA256 example_server = rev ''secret''" by simp_all
  from g0 g1 g2 g3 g4 show ?thesis by (intro conjI)
qed

text \<open>
  Claim C9 as stated fails: with matching credentials and a path the router matches, the
  call \<open>/ns/nodes/n001_AA/cmd/DON/100/abc\<close> is answered "not found" and no request is sent.
\<close>

theorem C9_recognized_route_not_delivered_counterexample:
  "BasicAuth (example_call ''/ns/nodes/n001_AA/cmd/DON/100/abc'') =
     Some (username example_server, ''secret'') \<and>
   rev ''secret'' = passwordSHA256 example_server \<and>
   router_Match router (URL_Path (example_call ''/ns/nodes/n001_AA/cmd/DON/100/abc'')) =
     Some (''nodeCommandValueUnit'',
       [(''nodeAddr'', ''n001_AA''), (''command'', ''DON''), (''value'', ''100''),
        (''unit'', ''abc'')]) \<and>
   handler rev isy_int example_server (example_call ''/ns/nodes/n001_AA/cmd/DON/100/abc'') =
     [http_Error ''Not Found'' 404]"
proof -
  let ?r = "example_call ''/ns/nodes/n001_AA/cmd/DON/100/abc''"
  have au: "BasicAuth ?r = Some (username example_server, ''secret'')"
    "rev ''secret'' = passwordSHA256 example_server"
    by (simp_all add: example_call_fields example_server_fields)
  have rm: "router_Match router (URL_Path ?r) =
     Some (''nodeCommandValueUnit'',
       [(''nodeAddr'', ''n001_AA''), (''command'', ''DON''), (''value'', ''100''),
        (''unit'', ''abc'')])"
    by (simp only: example_call_fields router_example_abc)
  have "handler rev isy_int example_server ?r =
      (case router_Match router (URL_Path ?r) of
         None \<Rightarrow> [http_Error ''Not Found'' 404]
       | Some (nm, vars) \<Rightarrow>
           (case handler_switch isy_int example_server ?r nm vars of
              None \<Rightarrow> [http_Error ''Not Found'' 404]
            | Some rq \<Rightarrow> [WriteHeader 204, chan_send (rawReqs example_server) rq]))"
    using au(1) refl au(2) by (rule handler_authorized)
  then have "handler rev isy_int example_server ?r = [http_Error ''Not Found'' 404]"
    by (simp add: rm handler_switch_def Vars_get_def Atoi_abc)
  with au rm show ?thesis by (intro conjI)
qed

subsection \<open>Acknowledgement and hand-off\<close>

text \<open>
  Claim C3. What a handler does is one error response, or the acknowledgement
  \<open>WriteHeader(204)\<close> followed by one send on \<open>rawReqs\<close>: the acknowledgement comes first.
  \<open>NewServer\<close> makes \<open>rawReqs\<close> with capacity 0. With such a channel, in every state that
  any number of handler goroutines and consumers can reach, the buffer is empty and a
  handler that decodes a request has either not started, or has acknowledged and waits at
  its send with no consumer having received the request, or has returned, after its
  acknowledgement and after the receipt of its request by exactly one consumer.
\<close>

theorem C3_ack_before_handoff:
  "((\<exists>msg code. handler sha256sum isy s r = [http_Error msg code]) \<or>
    (\<exists>rq. handler sha256sum isy s r = [WriteHeader 204, chan_send (rawReqs s) rq])) \<and>
   (NewServer sha256sum parses config profileNum isyConfig = Inr s \<longrightarrow>
      rawReqs s = make_chan 0) \<and>
   (rawReqs s = make_chan 0 \<and>
    rtranclp step (sys_init (map (handler sha256sum isy s) rs)) \<sigma> \<and>
    i < length rs \<and>
    handler sha256sum isy s (rs ! i) = [WriteHeader 204, chan_send (rawReqs s) rq] \<longrightarrow>
      buffer \<sigma> = [] \<and>
      ((events_of i \<sigma> = [] \<and>
        pending \<sigma> ! i = [WriteHeader 204, chan_send (rawReqs s) rq]) \<or>
       (events_of i \<sigma> = [Responded i 204] \<and> pending \<sigma> ! i = [chan_send (rawReqs s) rq]) \<or>
       (\<exists>c. events_of i \<sigma> = [Responded i 204, Received c i rq] \<and> pending \<sigma> ! i = [])))"
proof (intro conjI impI)
  show "(\<exists>msg code. handler sha256sum isy s r = [http_Error msg code]) \<or>
    (\<exists>rq. handler sha256sum isy s r = [WriteHeader 204, chan_send (rawReqs s) rq])"
    using handler_has_effects [of s sha256sum isy r] by (simp add: handler_effects_def)
next
  assume "NewServer sha256sum parses config profileNum isyConfig = Inr s"
  then show "rawReqs s = make_chan 0" by (rule NewServer_fields(1))
next
  assume a: "rawReqs s = make_chan 0 \<and>
    rtranclp step (sys_init (map (handler sha256sum isy s) rs)) \<sigma> \<and>
    i < length rs \<and>
    handler sha256sum isy s (rs ! i) = [WriteHeader 204, chan_send (rawReqs s) rq]"
  let ?hs = "map (handler sha256sum isy s) rs"
  from a have ch: "rawReqs s = make_chan 0"
    and re: "rtranclp step (sys_init ?hs) \<sigma>"
    and i: "i < length rs"
    and h: "handler sha256sum isy s (rs ! i) = [WriteHeader 204, chan_send (rawReqs s) rq]"
    by simp_all
  have "\<forall>j < length ?hs. handler_effects (make_chan 0) (?hs ! j)"
    using handler_has_effects [of s sha256sum isy] ch by simp
  from reachable_invariant [OF this re]
  have b: "buffer \<sigma> = []" and st: "handler_stage i (?hs ! i) \<sigma>"
    using i by simp_all
  from b show "buffer \<sigma> = []" .
  from st i h
  show "(events_of i \<sigma> = [] \<and>
        pending \<sigma> ! i = [WriteHeader 204, chan_send (rawReqs s) rq]) \<or>
       (events_of i \<sigma> = [Responded i 204] \<and> pending \<sigma> ! i = [chan_send (rawReqs s) rq]) \<or>
       (\<exists>c. events_of i \<sigma> = [Responded i 204, Received c i rq] \<and> pending \<sigma> ! i = [])"
    by (auto simp: handler_stage_def)
qed

text \<open>
  The statement of C3 at the example server: the state after the acknowledgement and the
  rendezvous with consumer 7.
\<close>

theorem C3_ack_before_handoff_witness:
  "rawReqs example_server = make_chan 0 \<and>
   rtranclp step
     (sys_init (map (handler rev isy_int example_server)
        [example_call ''/ns/nodes/n001_AA/query'']))
     \<lparr>pending = [[]], buffer = [],
      trace = [Responded 0 204,
               Received 7 0 (NodeQueryRequest \<lparr>id' = ''r1'', server = example_server\<rparr> ''AA'' :: int Request)]\<rparr> \<and>
   events_of 0
     \<lparr>pending = [[]], buffer = [],
      trace = [Responded 0 204,
               Received 7 0 (NodeQueryRequest \<lparr>id' = ''r1'', server = example_server\<rparr> ''AA'' :: int Request)]\<rparr> =
     [Responded 0 204,
      Received 7 0 (NodeQueryRequest \<lparr>id' = ''r1'', server = example_server\<rparr> ''AA'' :: int Request)] \<and>
   (\<exists>c. events_of 0
      \<lparr>pending = [[]], buffer = [],
       trace = [Responded 0 204,
                Received 7 0 (NodeQueryRequest \<lparr>id' = ''r1'', server = example_server\<rparr> ''AA'' :: int Request)]\<rparr> =
      [Responded 0 204,
       Received c 0 (NodeQueryRequest \<lparr>id' = ''r1'', server = example_server\<rparr> ''AA'' :: int Request)])"
proof -
  let ?rq = "NodeQueryRequest \<lparr>id' = ''r1'', server = example_server\<rparr> ''AA'' :: int Request"
  let ?rs = "[example_call ''/ns/nodes/n001_AA/query'']"
  let ?s2 = "\<lparr>pending = [[]], buffer = [],
      trace = [Responded 0 204, Received 7 0 ?rq]\<rparr>"
  note C = C3_ack_before_handoff [where sha256sum = rev and isy = isy_int
      and s = example_server and rs = ?rs and \<sigma> = ?s2 and i = 0 and rq = ?rq
      and parses = "\<lambda>u. True" and profileNum = 1
      and config = "\<lparr>ListenAddr = '':8443'', Config.Username = ''isy'',
                      Config.Password = ''secret''\<rparr>"
      and isyConfig = "\<lparr>ClientConfig.BaseURL = ''http://isy.example/'',
                         ClientConfig.Username = ''admin'', ClientConfig.Password = ''admin''\<rparr>"]
  have ch: "rawReqs example_server = make_chan 0"
    using NewServer_example by (rule C [THEN conjunct2, THEN conjunct1, THEN mp])
  have hd: "handler rev isy_int example_server (?rs ! 0) =
      [WriteHeader 204, chan_send (rawReqs example_server) ?rq]"
    by (simp add: handler_example_query ch)
  have re: "rtranclp step (sys_init (map (handler rev isy_int example_server) ?rs)) ?s2"
    using two_steps_unbuffered [of ?rq 7] by (simp add: handler_example_query)
  have i: "(0::nat) < length ?rs" by simp
  have "buffer ?s2 = [] \<and>
      ((events_of 0 ?s2 = [] \<and>
        pending ?s2 ! 0 = [WriteHeader 204, chan_send (rawReqs example_server) ?rq]) \<or>
       (events_of 0 ?s2 = [Responded 0 204] \<and>
        pending ?s2 ! 0 = [chan_send (rawReqs example_server) ?rq]) \<or>
       (\<exists>c. events_of 0 ?s2 = [Responded 0 204, Received c 0 ?rq] \<and> pending ?s2 ! 0 = []))"
    by (rule C [THEN conjunct2, THEN conjunct2, THEN mp]) (intro conjI ch re i hd)
  then have ex: "\<exists>c. events_of 0 ?s2 = [Responded 0 204, Received c 0 ?rq]"
    by (auto simp: events_of_def)
  have ev: "events_of 0 ?s2 = [Responded 0 204, Received 7 0 ?rq]"
    by (simp add: events_of_def)
  from ch re ev ex show ?thesis by - (intro conjI; assumption)
qed

subsection \<open>Outbound calls\<close>

text \<open>
  Claim C4. When the transport fails to connect, \<open>Do\<close> returns a nil response with the
  error, and \<open>nsClient.Request\<close> reads \<open>resp.StatusCode\<close> for its log line before it tests
  the error: \<open>Complete\<close> on a request with an id and \<open>Server.AddNode\<close> panic there instead
  of returning the error. The same function without the log line, as \<open>isyns/server.go\<close>
  has it, returns the error of the transport.
\<close>

theorem C4_transport_failure_panics:
  "fst (Complete transport_refused \<lparr>id' = ''r1'', server = example_server\<rparr> True) =
     Panic ''nil pointer dereference'' \<and>
   fst (Server_AddNode transport_refused example_server ''AA'' ''dimmer'' [] ''Lamp'') =
     Panic ''nil pointer dereference'' \<and>
   fst (Request_unlogged transport_refused (client example_server)
          (MakeURL (client example_server) [''report'', ''status'', ''r1'', ''success''])) =
     Return (Some ''dial tcp: connection refused'')"
proof -
  have "fst (Request_unlogged transport_refused (client example_server)
          (MakeURL (client example_server) [''report'', ''status'', ''r1'', ''success''])) =
     Return (Some ''dial tcp: connection refused'')"
    by (simp add: Request_unlogged_def transport_refused_def Let_def)
  then show ?thesis
    by (simp add: Complete_def ReportRequestStatus_def Server_AddNode_def AddNode_def
        Request_transport_refused Let_def)
qed

text \<open>
  Claim C8, as the code has it. \<open>ReportRequestStatus\<close> requests
  \<open>report/status/<id>/success\<close> or \<open>report/status/<id>/fail\<close> under the base URL, the id
  percent-escaped, for every id but the empty one and the dot elements \<open>.\<close> and \<open>..\<close>
  that \<open>path.Join\<close> removes. It has no test of the id: with the empty id it requests
  \<open>report/status/success\<close> or \<open>report/status/fail\<close>. A request that \<open>http.NewRequest\<close>
  accepts is handed to the transport once. \<open>Complete\<close> on an empty id returns nil and
  makes no call; on any other id it is \<open>ReportRequestStatus\<close>, at most one call, and
  exactly the one call above when \<open>http.NewRequest\<close> accepts the URL.
\<close>

theorem C8_report_status_and_complete:
  "(rid \<noteq> [] \<and> rid \<noteq> ''.'' \<and> rid \<noteq> ''..'' \<longrightarrow>
      ReportRequestStatus t c rid success =
        Request t c
          (ResolveReference (nsClient.BaseURL c)
             (url_Parse (''report/status/'' @ PathEscape rid @
                (if success then ''/success'' else ''/fail''))))) \<and>
   ReportRequestStatus t c [] success =
     Request t c
       (ResolveReference (nsClient.BaseURL c)
          (url_Parse (if success then ''report/status/success'' else ''report/status/fail''))) \<and>
   (NewRequest_err t (ResolveReference (nsClient.BaseURL c) url) = None \<longrightarrow>
      snd (Request t c url) =
        [\<lparr>Method = ''GET'', Target = ResolveReference (nsClient.BaseURL c) url,
          Auth = (nsClient.Username c, nsClient.Password c)\<rparr>]) \<and>
   (id' r = [] \<longrightarrow> Complete t r success = (Return None, [])) \<and>
   (id' r \<noteq> [] \<longrightarrow>
      Complete t r success = ReportRequestStatus t (client (server r)) (id' r) success \<and>
      length (snd (Complete t r success)) \<le> 1) \<and>
   (id' r \<noteq> [] \<and> id' r \<noteq> ''.'' \<and> id' r \<noteq> ''..'' \<and>
    NewRequest_err t
      (ResolveReference (nsClient.BaseURL (client (server r)))
         (ResolveReference (nsClient.BaseURL (client (server r)))
            (url_Parse (''report/status/'' @ PathEscape (id' r) @ ''/success'')))) = None \<longrightarrow>
      snd (Complete t r True) =
        [\<lparr>Method = ''GET'',
          Target =
            ResolveReference (nsClient.BaseURL (client (server r)))
              (ResolveReference (nsClient.BaseURL (client (server r)))
                 (url_Parse (''report/status/'' @ PathEscape (id' r) @ ''/success''))),
          Auth = (nsClient.Username (client (server r)),
                  nsClient.Password (client (server r)))\<rparr>])"
proof (intro conjI impI)
  assume a: "rid \<noteq> [] \<and> rid \<noteq> ''.'' \<and> rid \<noteq> ''..''"
  show "ReportRequestStatus t c rid success =
        Request t c
          (ResolveReference (nsClient.BaseURL c)
             (url_Parse (''report/status/'' @ PathEscape rid @
                (if success then ''/success'' else ''/fail''))))"
    using a MakeURL_report [of rid "''success''" c] MakeURL_report [of rid "''fail''" c]
    by (simp add: ReportRequestStatus_def)
next
  show "ReportRequestStatus t c [] success =
     Request t c
       (ResolveReference (nsClient.BaseURL c)
          (url_Parse (if success then ''report/status/success'' else ''report/status/fail'')))"
    using MakeURL_report_empty [of "''success''" c] MakeURL_report_empty [of "''fail''" c]
    by (simp add: ReportRequestStatus_def)
next
  assume "NewRequest_err t (ResolveReference (nsClient.BaseURL c) url) = None"
  then show "snd (Request t c url) =
        [\<lparr>Method = ''GET'', Target = ResolveReference (nsClient.BaseURL c) url,
          Auth = (nsClient.Username c, nsClient.Password c)\<rparr>]"
    by (rule Request_one_call)
next
  assume "id' r = []"
  then show "Complete t r success = (Return None, [])" by (simp add: Complete_def)
next
  assume "id' r \<noteq> []"
  then show "Complete t r success =
      ReportRequestStatus t (client (server r)) (id' r) success"
    by (simp add: Complete_def)
next
  assume "id' r \<noteq> []"
  then show "length (snd (Complete t r success)) \<le> 1"
    using Request_calls [of t "client (server r)"]
    by (simp add: Complete_def ReportRequestStatus_def)
next
  let ?c = "client (server r)"
  let ?u = "ResolveReference (nsClient.BaseURL ?c)
            (url_Parse (''report/status/'' @ PathEscape (id' r) @ ''/success''))"
  assume a: "id' r \<noteq> [] \<and> id' r \<noteq> ''.'' \<and> id' r \<noteq> ''..'' \<and>
    NewRequest_err t (ResolveReference (nsClient.BaseURL ?c) ?u) = None"
  then have "MakeURL ?c [''report'', ''status'', id' r, ''success''] = ?u"
    using MakeURL_report [of "id' r" "''success''" ?c] by simp
  then have "Complete t r True = Request t ?c ?u"
    using a by (simp add: Complete_def ReportRequestStatus_def)
  moreover have "snd (Request t ?c ?u) =
     [\<lparr>Method = ''GET'', Target = ResolveReference (nsClient.BaseURL ?c) ?u,
       Auth = (nsClient.Username ?c, nsClient.Password ?c)\<rparr>]"
    using a by (intro Request_one_call) simp
  ultimately show "snd (Complete t r True) =
        [\<lparr>Method = ''GET'', Target = ResolveReference (nsClient.BaseURL ?c) ?u,
          Auth = (nsClient.Username ?c, nsClient.Password ?c)\<rparr>]"
    by simp
qed

text \<open>
  The statement of C8 at the example server: a failure report for the id \<open>r1\<close>, and
  \<open>Complete\<close> on the empty id and on \<open>r1\<close>.
\<close>

theorem C8_report_status_and_complete_witness:
  "ReportRequestStatus transport_ok (client example_server) ''r1'' False =
     (Return None,
      [\<lparr>Method = ''GET'',
        Target =
          ResolveReference
            (ResolveReference (url_Parse ''http://isy.example/'') (url_Parse ''rest/ns/1/''))
            (ResolveReference
               (ResolveReference (url_Parse ''http://isy.example/'') (url_Parse ''rest/ns/1/''))
               (url_Parse ''report/status/r1/fail'')),
        Auth = (''admin'', ''admin'')\<rparr>]) \<and>
   Complete transport_ok \<lparr>id' = [], server = example_server\<rparr> True = (Return None, []) \<and>
   snd (Complete transport_ok \<lparr>id' = ''r1'', server = example_server\<rparr> True) =
     [\<lparr>Method = ''GET'',
       Target =
         ResolveReference
           (ResolveReference (url_Parse ''http://isy.example/'') (url_Parse ''rest/ns/1/''))
           (ResolveReference
              (ResolveReference (url_Parse ''http://isy.example/'') (url_Parse ''rest/ns/1/''))
              (url_Parse ''report/status/r1/success'')),
       Auth = (''admin'', ''admin'')\<rparr>]"
proof -
  let ?c = "client example_server"
  let ?r0 = "\<lparr>id' = [], server = example_server\<rparr>"
  let ?r1 = "\<lparr>id' = ''r1'', server = example_server\<rparr>"
  note A = C8_report_status_and_complete [where t = transport_ok and c = ?c
      and rid = "''r1''" and success = False]
  note B = C8_report_status_and_complete [where t = transport_ok and r = ?r0
      and success = True]
  note C = C8_report_status_and_complete [where t = transport_ok and r = ?r1]
  have "ReportRequestStatus transport_ok ?c ''r1'' False =
      Request transport_ok ?c
        (ResolveReference (nsClient.BaseURL ?c)
           (url_Parse (''report/status/'' @ PathEscape ''r1'' @
              (if False then ''/success'' else ''/fail''))))"
    by (rule A [THEN conjunct1, THEN mp]) simp
  then have g1: "ReportRequestStatus transport_ok ?c ''r1'' False =
     (Return None,
      [\<lparr>Method = ''GET'',
        Target =
          ResolveReference
            (ResolveReference (url_Parse ''http://isy.example/'') (url_Parse ''rest/ns/1/''))
            (ResolveReference
               (ResolveReference (url_Parse ''http://isy.example/'') (url_Parse ''rest/ns/1/''))
               (url_Parse ''report/status/r1/fail'')),
        Auth = (''admin'', ''admin'')\<rparr>])"
    by (simp add: Request_transport_ok PathEscape_r1 example_client)
  have g2: "Complete transport_ok ?r0 True = (Return None, [])"
    by (rule B [THEN conjunct2, THEN conjunct2, THEN conjunct2, THEN conjunct1, THEN mp])
      simp
  have h: "id' ?r1 \<noteq> [] \<and> id' ?r1 \<noteq> ''.'' \<and> id' ?r1 \<noteq> ''..'' \<and>
    NewRequest_err transport_ok
      (ResolveReference (nsClient.BaseURL (client (server ?r1)))
         (ResolveReference (nsClient.BaseURL (client (server ?r1)))
            (url_Parse (''report/status/'' @ PathEscape (id' ?r1) @ ''/success'')))) = None"
    by (simp add: transport_ok_def)
  have "snd (Complete transport_ok ?r1 True) =
        [\<lparr>Method = ''GET'',
          Target =
            ResolveReference (nsClient.BaseURL (client (server ?r1)))
              (ResolveReference (nsClient.BaseURL (client (server ?r1)))
                 (url_Parse (''report/status/'' @ PathEscape (id' ?r1) @ ''/success''))),
          Auth = (nsClient.Username (client (server ?r1)),
                  nsClient.Password (client (server ?r1)))\<rparr>]"
    using h
    by (rule C [THEN conjunct2, THEN conjunct2, THEN conjunct2, THEN conjunct2,
          THEN conjunct2, THEN mp])
  then have g3: "snd (Complete transport_ok ?r1 True) =
     [\<lparr>Method = ''GET'',
       Target =
         ResolveReference
           (ResolveReference (url_Parse ''http://isy.example/'') (url_Parse ''rest/ns/1/''))
           (ResolveReference
              (ResolveReference (url_Parse ''http://isy.example/'') (url_Parse ''rest/ns/1/''))
              (url_Parse ''report/status/r1/success'')),
       Auth = (''admin'', ''admin'')\<rparr>]"
    by (simp add: PathEscape_r1 example_client)
  from g1 g2 g3 show ?thesis by (intro conjI)
qed

text \<open>
  Claim C8 as stated fails: \<open>ReportRequestStatus\<close> with the empty id is no no-op. It hands
  a request for \<open>report/status/success\<close> to the transport, and where the connection fails
  it does not return at all.
\<close>

theorem C8_empty_id_report_counterexample:
  "ReportRequestStatus transport_ok (client example_server) [] True =
     (Return None,
      [\<lparr>Method = ''GET'',
        Target =
          ResolveReference
            (ResolveReference (url_Parse ''http://isy.example/'') (url_Parse ''rest/ns/1/''))
            (ResolveReference
               (ResolveReference (url_Parse ''http://isy.example/'') (url_Parse ''rest/ns/1/''))
               (url_Parse ''report/status/success'')),
        Auth = (''admin'', ''admin'')\<rparr>]) \<and>
   fst (ReportRequestStatus transport_refused (client example_server) [] True) =
     Panic ''nil pointer dereference''"
  by (simp add: ReportRequestStatus_def MakeURL_report_empty Request_transport_ok
      Request_transport_refused example_client)

subsection \<open>Address namespacing\<close>

text \<open>
  Claim C6. Address round-trip: for every address \<open>x\<close> and every profile prefix (the prefix
  field of the server \<open>s\<close>, of the client \<open>c\<close>), stripping the prefix from the prefixed
  address gives \<open>x\<close> back, for the server's pair of functions and for the client's.
\<close>

theorem C6_addr_round_trip:
  "parseAddr s (formatAddr s x) = x \<and> ParseAddr c (FormatAddr c x) = x"
  by (simp add: parseAddr_def formatAddr_def ParseAddr_def FormatAddr_def
      HasPrefix_def slice_from_def)

text \<open>
  Claim C7. Fail-safe translation: when the given string does not begin with the profile
  prefix, \<open>parseAddr\<close> and \<open>ParseAddr\<close> return it unchanged, whatever the prefix is.
\<close>

theorem C7_parseAddr_fail_safe:
  "(\<not> HasPrefix given (addrPrefix s) \<longrightarrow> parseAddr s given = given) \<and>
   (\<not> HasPrefix given (AddrPrefix c) \<longrightarrow> ParseAddr c given = given)"
  by (simp add: parseAddr_def ParseAddr_def)

text \<open>The statement of C7 at the example server and its client, for an address of profile 2.\<close>

theorem C7_parseAddr_fail_safe_witness:
  "\<not> HasPrefix ''n002_AA'' ''n001_'' \<and>
   parseAddr example_server ''n002_AA'' = ''n002_AA'' \<and>
   ParseAddr (client example_server) ''n002_AA'' = ''n002_AA''"
proof -
  have p: "addrPrefix example_server = ''n001_''"
    "AddrPrefix (client example_server) = ''n001_''"
    by (simp_all add: example_server_def)
  have n: "\<not> HasPrefix ''n002_AA'' ''n001_''" by (simp add: HasPrefix_def)
  note C = C7_parseAddr_fail_safe [where given = "''n002_AA''" and s = example_server
      and c = "client example_server"]
  from n have g1: "parseAddr example_server ''n002_AA'' = ''n002_AA''"
    unfolding p(1) [symmetric] by (rule C [THEN conjunct1, THEN mp])
  from n have g2: "ParseAddr (client example_server) ''n002_AA'' = ''n002_AA''"
    unfolding p(2) [symmetric] by (rule C [THEN conjunct2, THEN mp])
  from n g1 g2 show ?thesis by - (intro conjI; assumption)
qed

end
